theory Spec2Isabelle
  imports Complex_Main "HOL-Library.Word"
begin

section \<open>Errors\<close>

text \<open>
  Every \<^verbatim>\<open>raise\<close> of \<^verbatim>\<open>dimod/generators/mimo.py\<close> is a \<^verbatim>\<open>ValueError\<close> with a
  message (adjacent string literals are joined as Python joins them, without a space); the other constructors are the exceptions of the Python run time and of numpy
  that the code can run into (a missing dictionary key, division by zero, a missing
  attribute, a failed \<^verbatim>\<open>assert\<close>, a local variable read before it is bound).  A function that can raise returns \<open>error + 'a\<close>.
\<close>

datatype error =
    ValueError string
  | TypeError string
  | KeyError
  | IndexError
  | ZeroDivisionError
  | AttributeError string
  | AssertionError string
  | UnboundLocalError string

definition and_then :: "error + 'a \<Rightarrow> ('a \<Rightarrow> error + 'b) \<Rightarrow> error + 'b" where
  "and_then m f = (case m of Inl e \<Rightarrow> Inl e | Inr x \<Rightarrow> f x)"

fun traverse :: "('a \<Rightarrow> error + 'b) \<Rightarrow> 'a list \<Rightarrow> error + 'b list" where
  "traverse f [] = Inr []"
| "traverse f (x # xs) =
     (case f x of Inl e \<Rightarrow> Inl e
      | Inr y \<Rightarrow> (case traverse f xs of Inl e \<Rightarrow> Inl e | Inr ys \<Rightarrow> Inr (y # ys)))"

section \<open>numpy arrays\<close>

text \<open>
  A numpy array is its element type, its shape and its elements in row-major order.
  Elements are complex numbers; an array of element type \<open>Int64\<close> or \<open>Float64\<close> holds
  numbers with imaginary part 0.  Floating-point numbers are idealised as reals, so
  rounding is not part of the model.  The operations below are the numpy operations the
  source calls, for arrays of at most two axes (the source builds no other).
\<close>

datatype dtype = Int64 | Float64 | Complex128

fun promote :: "dtype \<Rightarrow> dtype \<Rightarrow> dtype" where
  "promote Complex128 _ = Complex128"
| "promote _ Complex128 = Complex128"
| "promote Float64 _ = Float64"
| "promote _ Float64 = Float64"
| "promote Int64 Int64 = Int64"

record ndarray =
  dtype :: dtype
  shape :: "nat list"
  elems :: "complex list"

definition wf_array :: "ndarray \<Rightarrow> bool" where
  "wf_array a \<longleftrightarrow> length (elems a) = prod_list (shape a)"

definition real_valued :: "ndarray \<Rightarrow> bool" where
  "real_valued a \<longleftrightarrow> list_all (\<lambda>z. Im z = 0) (elems a)"

text \<open>\<^verbatim>\<open>np.array_equal\<close>: the same shape and the same elements.\<close>

definition array_equal :: "ndarray \<Rightarrow> ndarray \<Rightarrow> bool" where
  "array_equal a b \<longleftrightarrow> shape a = shape b \<and> elems a = elems b"

definition vec :: "dtype \<Rightarrow> complex list \<Rightarrow> ndarray" where
  "vec dt xs = \<lparr>dtype = dt, shape = [length xs], elems = xs\<rparr>"

text \<open>A matrix of \<open>r\<close> rows and \<open>c\<close> columns from its entries; entry \<open>(i, j)\<close> is element
  \<open>i * c + j\<close>.\<close>

definition mat :: "dtype \<Rightarrow> nat \<Rightarrow> nat \<Rightarrow> (nat \<Rightarrow> nat \<Rightarrow> complex) \<Rightarrow> ndarray" where
  "mat dt r c f =
     \<lparr>dtype = dt, shape = [r, c], elems = map (\<lambda>k. f (k div c) (k mod c)) [0..<r * c]\<rparr>"

definition at2 :: "ndarray \<Rightarrow> nat \<Rightarrow> nat \<Rightarrow> complex" where
  "at2 a i j = elems a ! (i * (shape a ! 1) + j)"

text \<open>\<^verbatim>\<open>len(a)\<close>: the first axis; an array without axes has no length.\<close>

definition len :: "ndarray \<Rightarrow> error + nat" where
  "len a = (case shape a of [] \<Rightarrow> Inl (TypeError ''len() of unsized object'') | n # _ \<Rightarrow> Inr n)"

definition real_dtype :: "dtype \<Rightarrow> dtype" where
  "real_dtype dt = (if dt = Complex128 then Float64 else dt)"

text \<open>\<^verbatim>\<open>a.real\<close>, \<^verbatim>\<open>a.imag\<close>, \<^verbatim>\<open>a.conj()\<close>, \<^verbatim>\<open>a.flatten()\<close>.\<close>

definition real_part :: "ndarray \<Rightarrow> ndarray" where
  "real_part a =
     a\<lparr>dtype := real_dtype (dtype a), elems := map (\<lambda>z. complex_of_real (Re z)) (elems a)\<rparr>"

definition imag_part :: "ndarray \<Rightarrow> ndarray" where
  "imag_part a =
     a\<lparr>dtype := real_dtype (dtype a), elems := map (\<lambda>z. complex_of_real (Im z)) (elems a)\<rparr>"

definition conj :: "ndarray \<Rightarrow> ndarray" where
  "conj a = a\<lparr>elems := map cnj (elems a)\<rparr>"

definition flatten :: "ndarray \<Rightarrow> ndarray" where
  "flatten a = a\<lparr>shape := [prod_list (shape a)]\<rparr>"

text \<open>\<^verbatim>\<open>a.T\<close>: the transpose of a matrix; an array of one axis or none is its own
  transpose.\<close>

definition transpose_T :: "ndarray \<Rightarrow> ndarray" where
  "transpose_T a =
     (case shape a of [r, c] \<Rightarrow> mat (dtype a) c r (\<lambda>i j. at2 a j i) | _ \<Rightarrow> a)"

text \<open>\<^verbatim>\<open>np.matmul\<close> of two matrices.  numpy raises \<^verbatim>\<open>ValueError\<close> when the inner
  dimensions differ or an operand has no axis; products with a one-axis operand or with
  stacks of matrices are not used by the source on its own arrays and are outside the
  model (reported as an error).\<close>

definition matmul :: "ndarray \<Rightarrow> ndarray \<Rightarrow> error + ndarray" where
  "matmul a b =
     (case shape a of
        [r, m] \<Rightarrow>
          (case shape b of
             [m', c] \<Rightarrow>
               if m = m'
               then Inr (mat (promote (dtype a) (dtype b)) r c
                          (\<lambda>i j. \<Sum>k\<leftarrow>[0..<m]. at2 a i k * at2 b k j))
               else Inl (ValueError ''matmul: mismatch in core dimension'')
           | _ \<Rightarrow> Inl (ValueError ''matmul: operand is not a matrix''))
      | _ \<Rightarrow> Inl (ValueError ''matmul: operand is not a matrix''))"

text \<open>A Python scalar times an array: \<open>dt\<close> is the scalar's kind (\<open>Int64\<close> for an
  \<^verbatim>\<open>int\<close>, \<open>Float64\<close> for a \<^verbatim>\<open>float\<close>, \<open>Complex128\<close> for \<^verbatim>\<open>1j\<close>).\<close>

definition scale :: "dtype \<Rightarrow> complex \<Rightarrow> ndarray \<Rightarrow> ndarray" where
  "scale dt s a = a\<lparr>dtype := promote dt (dtype a), elems := map (\<lambda>z. s * z) (elems a)\<rparr>"

text \<open>\<^verbatim>\<open>a + b\<close> for arrays of one shape.  numpy also broadcasts compatible shapes; the
  source adds arrays of one shape only, and different shapes are reported as an error.\<close>

definition add :: "ndarray \<Rightarrow> ndarray \<Rightarrow> error + ndarray" where
  "add a b =
     (if shape a = shape b
      then Inr \<lparr>dtype = promote (dtype a) (dtype b), shape = shape a,
                elems = map (\<lambda>(x, y). x + y) (zip (elems a) (elems b))\<rparr>
      else Inl (ValueError ''operands could not be broadcast together''))"

text \<open>\<^verbatim>\<open>a * b\<close> for two matrices, with numpy's broadcasting: along each axis the sizes
  are equal or one of them is 1, and the operand of size 1 is repeated.\<close>

definition bdim :: "nat \<Rightarrow> nat \<Rightarrow> nat" where
  "bdim m n = (if m = 1 then n else m)"

definition multiply :: "ndarray \<Rightarrow> ndarray \<Rightarrow> error + ndarray" where
  "multiply a b =
     (case shape a of
        [ra, ca] \<Rightarrow>
          (case shape b of
             [rb, cb] \<Rightarrow>
               if (ra = rb \<or> ra = 1 \<or> rb = 1) \<and> (ca = cb \<or> ca = 1 \<or> cb = 1)
               then Inr (mat (promote (dtype a) (dtype b)) (bdim ra rb) (bdim ca cb)
                          (\<lambda>i j. at2 a (if ra = 1 then 0 else i) (if ca = 1 then 0 else j)
                               * at2 b (if rb = 1 then 0 else i) (if cb = 1 then 0 else j)))
               else Inl (ValueError ''operands could not be broadcast together'')
           | _ \<Rightarrow> Inl (ValueError ''multiply: operand is not a matrix''))
      | _ \<Rightarrow> Inl (ValueError ''multiply: operand is not a matrix''))"

text \<open>\<^verbatim>\<open>np.concatenate((a, b), axis=0)\<close>: both arrays have the same number of axes (at
  least one) and agree on every axis but the first.\<close>

definition concatenate0 :: "ndarray \<Rightarrow> ndarray \<Rightarrow> error + ndarray" where
  "concatenate0 a b =
     (case shape a of
        [] \<Rightarrow> Inl (ValueError ''zero-dimensional arrays cannot be concatenated'')
      | m # sa \<Rightarrow>
          (case shape b of
             [] \<Rightarrow> Inl (ValueError ''zero-dimensional arrays cannot be concatenated'')
           | n # sb \<Rightarrow>
               if sa = sb
               then Inr \<lparr>dtype = promote (dtype a) (dtype b), shape = (m + n) # sa,
                         elems = elems a @ elems b\<rparr>
               else Inl (ValueError ''all the input array dimensions must match'')))"

text \<open>\<^verbatim>\<open>np.concatenate(arrays)\<close> of a non-empty Python list of arrays, along the first
  axis.\<close>

fun concatenate_list :: "ndarray list \<Rightarrow> error + ndarray" where
  "concatenate_list [] = Inl (ValueError ''need at least one array to concatenate'')"
| "concatenate_list [a] =
     (if shape a = [] then Inl (ValueError ''zero-dimensional arrays cannot be concatenated'')
      else Inr a)"
| "concatenate_list (a # b # bs) =
     (case concatenate0 a b of Inl e \<Rightarrow> Inl e | Inr ab \<Rightarrow> concatenate_list (ab # bs))"

text \<open>\<^verbatim>\<open>np.concatenate((a, b), axis=1)\<close> of two matrices with the same number of rows.\<close>

definition concatenate1 :: "ndarray \<Rightarrow> ndarray \<Rightarrow> error + ndarray" where
  "concatenate1 a b =
     (case shape a of
        [ra, ca] \<Rightarrow>
          (case shape b of
             [rb, cb] \<Rightarrow>
               if ra = rb
               then Inr (mat (promote (dtype a) (dtype b)) ra (ca + cb)
                          (\<lambda>i j. if j < ca then at2 a i j else at2 b i (j - ca)))
               else Inl (ValueError ''all the input array dimensions must match'')
           | _ \<Rightarrow> Inl (ValueError ''axis 1 is out of bounds''))
      | _ \<Rightarrow> Inl (ValueError ''axis 1 is out of bounds''))"

text \<open>An array from a Python list of integers: numpy gives an empty list the element
  type \<open>Float64\<close>.\<close>

definition of_ints :: "int list \<Rightarrow> ndarray" where
  "of_ints xs = vec (if xs = [] then Float64 else Int64) (map of_int xs)"

text \<open>\<^verbatim>\<open>np.arange(n)\<close>, and \<^verbatim>\<open>2**a\<close> for an array of non-negative 64-bit integers:
  the power wraps around in 64 bits, so \<^verbatim>\<open>2**63\<close> is \<open>- 2 ^ 63\<close>.\<close>

definition arange :: "nat \<Rightarrow> ndarray" where
  "arange n = vec Int64 (map of_nat [0..<n])"

definition pow2 :: "nat \<Rightarrow> int" where
  "pow2 p = sint ((2 :: 64 word) ^ p)"

definition two_power :: "ndarray \<Rightarrow> ndarray" where
  "two_power a = a\<lparr>elems := map (\<lambda>z. of_int (pow2 (nat \<lfloor>Re z\<rfloor>))) (elems a)\<rparr>"

text \<open>\<^verbatim>\<open>a[:, np.newaxis]\<close> and \<^verbatim>\<open>a[np.newaxis, :]\<close> of a one-axis array.\<close>

definition newaxis_col :: "ndarray \<Rightarrow> ndarray" where
  "newaxis_col a = a\<lparr>shape := shape a @ [1]\<rparr>"

definition newaxis_row :: "ndarray \<Rightarrow> ndarray" where
  "newaxis_row a = a\<lparr>shape := 1 # shape a\<rparr>"

text \<open>\<^verbatim>\<open>np.reshape(a, (r, c))\<close>.\<close>

definition reshape :: "ndarray \<Rightarrow> nat \<Rightarrow> nat \<Rightarrow> error + ndarray" where
  "reshape a r c =
     (if prod_list (shape a) = r * c then Inr (a\<lparr>shape := [r, c]\<rparr>)
      else Inl (ValueError ''cannot reshape array''))"

text \<open>\<^verbatim>\<open>a[:, :t]\<close> and \<^verbatim>\<open>a[:, t:]\<close> of a matrix.\<close>

definition cols_upto :: "ndarray \<Rightarrow> nat \<Rightarrow> ndarray" where
  "cols_upto a t = mat (dtype a) (shape a ! 0) (min t (shape a ! 1)) (\<lambda>i j. at2 a i j)"

definition cols_from :: "ndarray \<Rightarrow> nat \<Rightarrow> ndarray" where
  "cols_from a t = mat (dtype a) (shape a ! 0) (shape a ! 1 - t) (\<lambda>i j. at2 a i (t + j))"

text \<open>\<^verbatim>\<open>np.sum(a, axis=0)\<close> of a matrix: the sums of its columns.\<close>

definition sum_axis0 :: "ndarray \<Rightarrow> ndarray" where
  "sum_axis0 a =
     vec (dtype a) (map (\<lambda>j. \<Sum>i\<leftarrow>[0..<shape a ! 0]. at2 a i j) [0..<shape a ! 1])"

text \<open>\<^verbatim>\<open>np.kron(a, b)\<close> of two matrices.\<close>

definition kron :: "ndarray \<Rightarrow> ndarray \<Rightarrow> ndarray" where
  "kron a b =
     mat (promote (dtype a) (dtype b)) (shape a ! 0 * shape b ! 0) (shape a ! 1 * shape b ! 1)
       (\<lambda>i j. at2 a (i div (shape b ! 0)) (j div (shape b ! 1))
             * at2 b (i mod (shape b ! 0)) (j mod (shape b ! 1)))"

section \<open>The symbol and spin codec\<close>

text \<open>
  The dictionary \<^verbatim>\<open>symb_to_spins\<close> of \<^verbatim>\<open>symbols_to_spins\<close>: every tuple of \<open>k\<close> spins
  from \<^verbatim>\<open>itertools.product\<close>, keyed by its weighted sum \<open>\<Sum> x * 2 ^ xI\<close>, entry \<open>xI\<close>
  of the tuple having weight \<open>2 ^ xI\<close>.  A later tuple with the same key replaces an
  earlier one, as in a dictionary comprehension.
\<close>

definition spin_key :: "int list \<Rightarrow> int" where
  "spin_key spins = (\<Sum>(xI, x)\<leftarrow>enumerate 0 spins. x * 2 ^ xI)"

definition symb_to_spins :: "nat \<Rightarrow> (complex \<rightharpoonup> int list)" where
  "symb_to_spins k =
     fold (\<lambda>spins m. m(of_int (spin_key spins) \<mapsto> spins))
       (product_lists (replicate k [- 1, 1])) Map.empty"

text \<open>The inner list comprehension
  \<^verbatim>\<open>[symb_to_spins[symb][prec] for symb in ...]\<close>; a symbol that is no key of the
  dictionary raises \<^verbatim>\<open>KeyError\<close>.\<close>

definition spin_plane :: "(complex \<rightharpoonup> int list) \<Rightarrow> nat \<Rightarrow> complex list \<Rightarrow> error + int list" where
  "spin_plane tab prec symbs =
     traverse (\<lambda>symb. case tab symb of None \<Rightarrow> Inl KeyError | Some spins \<Rightarrow> Inr (spins ! prec))
       symbs"

definition qam_spins :: "nat \<Rightarrow> ndarray \<Rightarrow> error + ndarray" where
  "qam_spins spins_per_real_symbol symbols =
     and_then
       (traverse
          (\<lambda>prec.
             and_then (spin_plane (symb_to_spins spins_per_real_symbol) prec
                         (elems (flatten (real_part symbols))))
               (\<lambda>re. and_then (spin_plane (symb_to_spins spins_per_real_symbol) prec
                                 (elems (flatten (imag_part symbols))))
                 (\<lambda>im. concatenate0 (of_ints re) (of_ints im))))
          [0..<spins_per_real_symbol])
       concatenate_list"

text \<open>
  \<^verbatim>\<open>symbols_to_spins(symbols, modulation)\<close>.  The reshaping at the end of the source
  function discards its result, so it changes nothing.
\<close>

definition symbols_to_spins :: "ndarray \<Rightarrow> string \<Rightarrow> error + ndarray" where
  "symbols_to_spins symbols modulation =
     and_then (len symbols)
       (\<lambda>num_transmitters.
          if modulation = ''BPSK'' then Inr symbols
          else if modulation = ''QPSK''
            then concatenate0 (real_part symbols) (imag_part symbols)
          else if modulation = ''16QAM'' then qam_spins 2 symbols
          else if modulation = ''64QAM'' then qam_spins 3 symbols
          else Inl (ValueError ''Unsupported modulation''))"

text \<open>
  \<^verbatim>\<open>spins_to_symbols(spins, modulation, num_transmitters)\<close>.  A transmitter count is a
  natural number; \<^verbatim>\<open>divmod\<close> by \<^verbatim>\<open>2*num_transmitters = 0\<close> raises
  \<^verbatim>\<open>ZeroDivisionError\<close>.
\<close>

definition default_transmitters :: "string option \<Rightarrow> nat \<Rightarrow> error + nat" where
  "default_transmitters modulation num_spins =
     (if modulation = Some ''BPSK'' then Inr num_spins
      else if modulation = Some ''QPSK'' then Inr (num_spins div 2)
      else if modulation = Some ''16QAM'' then Inr (num_spins div 4)
      else if modulation = Some ''64QAM'' then Inr (num_spins div 6)
      else Inl (ValueError ''Unsupported modulation''))"

definition spins_to_symbols :: "ndarray \<Rightarrow> string option \<Rightarrow> nat option \<Rightarrow> error + ndarray" where
  "spins_to_symbols spins modulation num_transmitters_arg =
     and_then (len spins)
       (\<lambda>num_spins.
          and_then
            (case num_transmitters_arg of
               None \<Rightarrow> default_transmitters modulation num_spins
             | Some t \<Rightarrow> Inr t)
            (\<lambda>num_transmitters.
               if num_transmitters = num_spins then Inr spins
               else if 2 * num_transmitters = 0 then Inl ZeroDivisionError
               else
                 let num_amps = num_spins div (2 * num_transmitters);
                     rem = num_spins mod (2 * num_transmitters)
                 in if num_amps > 64
                    then Inl (ValueError ''Complex encoding is limited to 64 bits inreal and imaginary parts; num_transmitters istoo small'')
                    else if rem \<noteq> 0
                    then Inl (ValueError ''num_spins must be divisible by num_transmitters for modulation schemes'')
                    else
                      and_then (reshape spins num_amps (2 * num_transmitters))
                        (\<lambda>spinsR.
                           let amps = newaxis_col (two_power (arange num_amps))
                           in and_then (multiply amps (cols_upto spinsR num_transmitters))
                                (\<lambda>re. and_then
                                         (multiply amps (cols_from spinsR num_transmitters))
                                         (\<lambda>im. add (sum_axis0 re)
                                                  (scale Complex128 \<i> (sum_axis0 im)))))))"

section \<open>The constellation catalogue\<close>

text \<open>
  \<^verbatim>\<open>constellation_properties(modulation)\<close>: the bits per transmitter, the amplitudes
  \<^verbatim>\<open>amps\<close> (\<^verbatim>\<open>np.ones(1)\<close> or \<^verbatim>\<open>1+2*np.arange(n)\<close>) and the mean power
  \<^verbatim>\<open>2*np.mean(amps*amps)\<close> (1 for BPSK).
\<close>

definition ones :: "nat \<Rightarrow> ndarray" where
  "ones n = vec Float64 (replicate n 1)"

definition odd_amps :: "nat \<Rightarrow> ndarray" where
  "odd_amps n = vec Int64 (map (\<lambda>i. 1 + 2 * of_nat i) [0..<n])"

definition mean_square :: "ndarray \<Rightarrow> real" where
  "mean_square amps = (\<Sum>a\<leftarrow>elems amps. Re (a * a)) / real (length (elems amps))"

definition constellation_properties :: "string \<Rightarrow> error + (nat \<times> ndarray \<times> real)" where
  "constellation_properties modulation =
     (if modulation = ''BPSK'' then Inr (1, ones 1, 1)
      else if modulation = ''QPSK'' then Inr (2, ones 1, 2 * mean_square (ones 1))
      else if modulation = ''16QAM'' then Inr (2 * 2, odd_amps 2, 2 * mean_square (odd_amps 2))
      else if modulation = ''64QAM'' then Inr (2 * 3, odd_amps 4, 2 * mean_square (odd_amps 4))
      else if modulation = ''256QAM'' then Inr (2 * 4, odd_amps 8, 2 * mean_square (odd_amps 8))
      else Inl (ValueError ''Unsupported modulation method''))"

text \<open>
  A valid constellation symbol of a modulation: its real part is plus or minus one of the
  modulation's amplitudes, and so is its imaginary part, except for BPSK, whose symbols
  are real.
\<close>

definition signed_amplitudes :: "string \<Rightarrow> complex list" where
  "signed_amplitudes modulation =
     (case constellation_properties modulation of
        Inl _ \<Rightarrow> []
      | Inr (bits, amps, mean_power) \<Rightarrow> concat (map (\<lambda>a. [a, - a]) (elems amps)))"

definition valid_symbol :: "string \<Rightarrow> complex \<Rightarrow> bool" where
  "valid_symbol modulation z \<longleftrightarrow>
     (if modulation = ''BPSK'' then z \<in> set (signed_amplitudes modulation)
      else complex_of_real (Re z) \<in> set (signed_amplitudes modulation)
         \<and> complex_of_real (Im z) \<in> set (signed_amplitudes modulation))"

text \<open>A vector of \<open>n\<close> entries is an array of one axis, or a column.  A vector of valid
  symbols has all its entries, and each is a valid symbol.\<close>

definition vector_of :: "nat \<Rightarrow> ndarray \<Rightarrow> bool" where
  "vector_of n a \<longleftrightarrow> shape a = [n] \<or> shape a = [n, 1]"

definition valid_symbols :: "string \<Rightarrow> ndarray \<Rightarrow> bool" where
  "valid_symbols modulation v \<longleftrightarrow>
     vector_of (length (elems v)) v \<and> list_all (valid_symbol modulation) (elems v)"

text \<open>
  The spins of a spin vector come in groups (bit planes) of \<open>2 * n\<close> spins for \<open>n\<close>
  symbols: first the \<open>n\<close> spins of the real parts, then the \<open>n\<close> spins of the imaginary
  parts.  \<open>weighted_planes ws n s j\<close> is the sum over the groups of spin \<open>j\<close> of each
  group, group \<open>p\<close> weighted by \<open>ws ! p\<close>.
\<close>

definition weighted_planes :: "int list \<Rightarrow> nat \<Rightarrow> complex list \<Rightarrow> nat \<Rightarrow> complex" where
  "weighted_planes ws n s j = (\<Sum>p\<leftarrow>[0..<length ws]. of_int (ws ! p) * s ! (p * (2 * n) + j))"

text \<open>Notions used in the proofs: an array of one axis, entry \<open>p\<close> of the tuple that the
  dictionary holds for a symbol, and the value of a tuple of \<open>k\<close> spins.\<close>

definition is_vec :: "ndarray \<Rightarrow> bool" where
  "is_vec a \<longleftrightarrow> shape a = [length (elems a)]"

definition spin_digit :: "nat \<Rightarrow> nat \<Rightarrow> real \<Rightarrow> int" where
  "spin_digit k p x = the (symb_to_spins k (complex_of_real x)) ! p"

definition plane_sum :: "nat \<Rightarrow> (nat \<Rightarrow> int) \<Rightarrow> real" where
  "plane_sum k d = (\<Sum>p\<leftarrow>[0..<k]. real_of_int (pow2 p) * real_of_int (d p))"

section \<open>The quadratic form\<close>

text \<open>
  \<^verbatim>\<open>_quadratic_form(y, F)\<close>: the coefficients of \<open>||y - F v||\<^sup>2\<close>.  Both shape checks
  raise \<^verbatim>\<open>ValueError\<close>.  The offset is the sum of two matrix products, so it is a matrix
  of one row and one column.
\<close>

definition quadratic_form :: "ndarray \<Rightarrow> ndarray \<Rightarrow> error + (ndarray \<times> ndarray \<times> ndarray)" where
  "quadratic_form y F =
     (if length (shape y) \<noteq> 2 \<or> shape y ! 1 \<noteq> 1
      then Inl (ValueError ''y should have shape [n, 1] for some n'')
      else if length (shape F) \<noteq> 2 \<or> shape F ! 0 \<noteq> shape y ! 0
      then Inl (ValueError ''F should have shape [n, m] for some m, nand n should equal y.shape[1]'')
      else
        and_then (matmul (transpose_T (imag_part y)) (imag_part y))
          (\<lambda>yi. and_then (matmul (transpose_T (real_part y)) (real_part y))
            (\<lambda>yr. and_then (add yi yr)
              (\<lambda>offset. and_then (matmul (conj (transpose_T F)) y)
                (\<lambda>Fy. and_then (matmul (conj (transpose_T F)) F)
                  (\<lambda>J. Inr (offset, scale Int64 (- 2) Fy, J)))))))"

text \<open>
  \<^verbatim>\<open>_real_quadratic_form(h, J, modulation)\<close>.  The two inner concatenations are along
  axis 0 (one block above the other), the outer one along axis 1 (side by side).
\<close>

definition real_quadratic_form ::
    "ndarray \<Rightarrow> ndarray \<Rightarrow> string option \<Rightarrow> error + (ndarray \<times> ndarray)" where
  "real_quadratic_form h J modulation =
     (if modulation \<noteq> Some ''BPSK'' \<and> (dtype h = Complex128 \<or> dtype J = Complex128)
      then
        and_then (concatenate0 (real_part h) (imag_part h))
          (\<lambda>hR. and_then (concatenate0 (real_part J) (imag_part J))
            (\<lambda>left. and_then (concatenate0 (transpose_T (imag_part J)) (real_part J))
              (\<lambda>right. and_then (concatenate1 left right)
                (\<lambda>JR. Inr (hR, JR)))))
      else Inr (real_part h, real_part J))"

text \<open>
  \<^verbatim>\<open>_amplitude_modulated_quadratic_form(h, J, modulation)\<close>, with
  \<^verbatim>\<open>amps = 2**np.arange(num_amps)\<close>.
\<close>

definition amplitude_modulated_quadratic_form ::
    "ndarray \<Rightarrow> ndarray \<Rightarrow> string \<Rightarrow> error + (ndarray \<times> ndarray)" where
  "amplitude_modulated_quadratic_form h J modulation =
     (if modulation = ''BPSK'' \<or> modulation = ''QPSK'' then Inr (h, J)
      else
        and_then
          (if modulation = ''16QAM'' then Inr 2
           else if modulation = ''64QAM'' then Inr 3
           else Inl (ValueError ''unknown modulation''))
          (\<lambda>num_amps.
             let amps = two_power (arange num_amps)
             in Inr (kron (newaxis_col amps) h,
                     kron (kron (newaxis_col amps) (newaxis_row amps)) J)))"

text \<open>\<^verbatim>\<open>_yF_to_hJ(y, F, modulation)\<close>: the three steps in a row.\<close>

definition yF_to_hJ :: "ndarray \<Rightarrow> ndarray \<Rightarrow> string \<Rightarrow> error + (ndarray \<times> ndarray \<times> ndarray)" where
  "yF_to_hJ y F modulation =
     and_then (quadratic_form y F)
       (\<lambda>(offset, h, J). and_then (real_quadratic_form h J (Some modulation))
         (\<lambda>(h, J). and_then (amplitude_modulated_quadratic_form h J modulation)
           (\<lambda>(h, J). Inr (h, J, offset))))"

text \<open>
  The matrices the specification names: a column of integers, the outer product of two
  integer vectors, and a matrix of four blocks \<open>[[a, b], [c, d]]\<close> of one size
  \<open>n\<close> by \<open>n\<close>.
\<close>

definition column :: "int list \<Rightarrow> ndarray" where
  "column xs = \<lparr>dtype = Int64, shape = [length xs, 1], elems = map of_int xs\<rparr>"

definition outer :: "int list \<Rightarrow> int list \<Rightarrow> ndarray" where
  "outer xs ys = mat Int64 (length xs) (length ys) (\<lambda>i j. of_int (xs ! i * ys ! j))"

definition blocks :: "nat \<Rightarrow> ndarray \<Rightarrow> ndarray \<Rightarrow> ndarray \<Rightarrow> ndarray \<Rightarrow> ndarray" where
  "blocks n a b c d =
     mat (promote (promote (dtype a) (dtype b)) (promote (dtype c) (dtype d))) (2 * n) (2 * n)
       (\<lambda>i j. if i < n then (if j < n then at2 a i j else at2 b i (j - n))
              else (if j < n then at2 c (i - n) j else at2 d (i - n) (j - n)))"

text \<open>A matrix written row by row.\<close>

definition matrix :: "dtype \<Rightarrow> complex list list \<Rightarrow> ndarray" where
  "matrix dt rows =
     \<lparr>dtype = dt, shape = [length rows, (case rows of [] \<Rightarrow> 0 | r # _ \<Rightarrow> length r)],
      elems = concat rows\<rparr>"

text \<open>\<^verbatim>\<open>a.shape[i]\<close>, \<^verbatim>\<open>h[:, 0]\<close> and \<^verbatim>\<open>np.fill_diagonal(J, 0)\<close>.\<close>

definition shape_at :: "ndarray \<Rightarrow> nat \<Rightarrow> error + nat" where
  "shape_at a i = (if i < length (shape a) then Inr (shape a ! i) else Inl IndexError)"

definition column0 :: "ndarray \<Rightarrow> error + ndarray" where
  "column0 h =
     (case shape h of
        [r, c] \<Rightarrow> if 0 < c then Inr (vec (dtype h) (map (\<lambda>i. at2 h i 0) [0..<r]))
                  else Inl IndexError
      | _ \<Rightarrow> Inl IndexError)"

definition fill_diagonal :: "ndarray \<Rightarrow> complex \<Rightarrow> ndarray" where
  "fill_diagonal J x =
     mat (dtype J) (shape J ! 0) (shape J ! 1) (\<lambda>i j. if i = j then x else at2 J i j)"

section \<open>Random numbers\<close>

text \<open>
  numpy's generator \<^verbatim>\<open>RandomState\<close> is not part of the repository: its algorithm is a
  parameter.  \<open>'g\<close> is the state of a generator; \<open>rs_seeded\<close> is the state after
  \<^verbatim>\<open>RandomState(seed)\<close> for an integer seed, \<open>rs_normal\<close> one draw of \<^verbatim>\<open>normal(0, 1)\<close>
  and \<open>rs_randint n\<close> one draw of \<^verbatim>\<open>randint(n)\<close>, each with the state after the draw.
  A generator object is mutable and passed by reference in Python; here every function
  that draws returns the new state.
\<close>

record 'g random_ops =
  rs_seeded :: "nat \<Rightarrow> 'g"
  rs_normal :: "'g \<Rightarrow> real \<times> 'g"
  rs_randint :: "nat \<Rightarrow> 'g \<Rightarrow> nat \<times> 'g"

text \<open>
  What a call can read besides its arguments: the state of the process-wide generator
  behind \<^verbatim>\<open>np.random.choice\<close>, and the operating system's entropy, from which
  \<^verbatim>\<open>RandomState(None)\<close> is seeded (read number \<open>k\<close> gives the generator
  \<open>os_entropy k\<close>).
\<close>

record 'g world =
  np_random :: 'g
  os_entropy :: "nat \<Rightarrow> 'g"
  os_reads :: nat

text \<open>\<^verbatim>\<open>np.random.RandomState(seed)\<close> for \<^verbatim>\<open>None\<close> or an integer seed.\<close>

definition RandomState :: "'g random_ops \<Rightarrow> int option \<Rightarrow> 'g world \<Rightarrow> error + ('g \<times> 'g world)" where
  "RandomState ops seed w =
     (case seed of
        None \<Rightarrow> Inr (os_entropy w (os_reads w), w\<lparr>os_reads := Suc (os_reads w)\<rparr>)
      | Some s \<Rightarrow>
          if 0 \<le> s \<and> s < 2 ^ 32 then Inr (rs_seeded ops (nat s), w)
          else Inl (ValueError ''Seed must be between 0 and 2**32 - 1''))"

text \<open>A generator argument as the functions receive it: \<^verbatim>\<open>None\<close>, an integer that was
  never turned into a generator, or a generator.\<close>

datatype 'g state_arg = NoState | SeedInt int | State 'g

fun draw_list :: "('g \<Rightarrow> 'a \<times> 'g) \<Rightarrow> nat \<Rightarrow> 'g \<Rightarrow> 'a list \<times> 'g" where
  "draw_list d 0 g = ([], g)"
| "draw_list d (Suc n) g =
     (case d g of (x, g') \<Rightarrow> (case draw_list d n g' of (xs, g'') \<Rightarrow> (x # xs, g'')))"

text \<open>\<^verbatim>\<open>g.normal(0, 1, size=(r, c))\<close>, \<^verbatim>\<open>g.randint(n, size=(r, c))\<close> and
  \<^verbatim>\<open>g.choice(amps, size=(r, c))\<close>, which draws an index for every entry.\<close>

definition normal_array :: "'g random_ops \<Rightarrow> nat \<Rightarrow> nat \<Rightarrow> 'g \<Rightarrow> ndarray \<times> 'g" where
  "normal_array ops r c g =
     (case draw_list (rs_normal ops) (r * c) g of
        (xs, g') \<Rightarrow> (\<lparr>dtype = Float64, shape = [r, c], elems = map complex_of_real xs\<rparr>, g'))"

definition randint_array :: "'g random_ops \<Rightarrow> nat \<Rightarrow> nat \<Rightarrow> nat \<Rightarrow> 'g \<Rightarrow> ndarray \<times> 'g" where
  "randint_array ops n r c g =
     (case draw_list (rs_randint ops n) (r * c) g of
        (xs, g') \<Rightarrow> (\<lparr>dtype = Int64, shape = [r, c], elems = map of_nat xs\<rparr>, g'))"

definition choice_array :: "'g random_ops \<Rightarrow> ndarray \<Rightarrow> nat \<Rightarrow> nat \<Rightarrow> 'g \<Rightarrow> ndarray \<times> 'g" where
  "choice_array ops amps r c g =
     (case draw_list (rs_randint ops (length (elems amps))) (r * c) g of
        (xs, g') \<Rightarrow>
          (\<lparr>dtype = dtype amps, shape = [r, c], elems = map (\<lambda>i. elems amps ! i) xs\<rparr>, g'))"

text \<open>\<^verbatim>\<open>if random_state is None: random_state = np.random.RandomState(random_state)\<close>,
  and \<^verbatim>\<open>random_state.normal(0, 1, size=(r, c))\<close>, which an integer does not have.\<close>

definition materialize :: "'g random_ops \<Rightarrow> 'g state_arg \<Rightarrow> 'g world \<Rightarrow> error + ('g state_arg \<times> 'g world)" where
  "materialize ops random_state w =
     (case random_state of
        NoState \<Rightarrow> and_then (RandomState ops None w) (\<lambda>(g, w'). Inr (State g, w'))
      | _ \<Rightarrow> Inr (random_state, w))"

definition state_normal :: "'g random_ops \<Rightarrow> 'g state_arg \<Rightarrow> nat \<Rightarrow> nat \<Rightarrow> error + (ndarray \<times> 'g state_arg)" where
  "state_normal ops random_state r c =
     (case random_state of
        State g \<Rightarrow> (case normal_array ops r c g of (a, g') \<Rightarrow> Inr (a, State g'))
      | _ \<Rightarrow> Inl (AttributeError ''normal''))"

section \<open>Channel and signal generation\<close>

text \<open>
  \<^verbatim>\<open>create_channel\<close>.  \<^verbatim>\<open>F_distribution\<close> is \<^verbatim>\<open>None\<close> or a pair of strings, so the
  check of its type passes.  A first string other than \<^verbatim>\<open>'Normal'\<close> and \<^verbatim>\<open>'Binary'\<close>
  leaves \<^verbatim>\<open>F\<close> unbound at the \<^verbatim>\<open>return\<close>.
\<close>

definition one_minus_twice :: "ndarray \<Rightarrow> ndarray" where
  "one_minus_twice b = b\<lparr>elems := map (\<lambda>z. 1 - 2 * z) (elems b)\<rparr>"

definition create_channel ::
    "'g random_ops \<Rightarrow> nat \<Rightarrow> nat \<Rightarrow> (string \<times> string) option \<Rightarrow> 'g option \<Rightarrow> 'g world
      \<Rightarrow> error + ((ndarray \<times> nat \<times> 'g) \<times> 'g world)" where
  "create_channel ops num_receivers num_transmitters F_distribution random_state w =
     and_then (case random_state of None \<Rightarrow> RandomState ops None w | Some g \<Rightarrow> Inr (g, w))
       (\<lambda>(g, w').
          let dist = (case F_distribution of None \<Rightarrow> (''Normal'', ''Complex'') | Some d \<Rightarrow> d)
          in if fst dist = ''Normal'' then
               if snd dist = ''Real'' then
                 (case normal_array ops num_receivers num_transmitters g of
                    (F, g1) \<Rightarrow> Inr ((F, 1 * num_transmitters, g1), w'))
               else
                 (case normal_array ops num_receivers num_transmitters g of
                    (Fr, g1) \<Rightarrow>
                      (case normal_array ops num_receivers num_transmitters g1 of
                         (Fi, g2) \<Rightarrow>
                           and_then (add Fr (scale Complex128 \<i> Fi))
                             (\<lambda>F. Inr ((F, 2 * num_transmitters, g2), w'))))
             else if fst dist = ''Binary'' then
               if snd dist = ''Real'' then
                 (case randint_array ops 2 num_receivers num_transmitters g of
                    (B, g1) \<Rightarrow> Inr ((one_minus_twice B, 1 * num_transmitters, g1), w'))
               else
                 (case randint_array ops 2 num_receivers num_transmitters g of
                    (Br, g1) \<Rightarrow>
                      (case randint_array ops 2 num_receivers num_transmitters g1 of
                         (Bi, g2) \<Rightarrow>
                           and_then (add (one_minus_twice Br)
                                       (scale Complex128 \<i> (one_minus_twice Bi)))
                             (\<lambda>F. Inr ((F, 2 * num_transmitters, g2), w'))))
             else Inl (UnboundLocalError ''F''))"

text \<open>
  \<^verbatim>\<open>create_transmitted_symbols\<close> draws with \<^verbatim>\<open>np.random.choice\<close>, that is from the
  process-wide generator: it reads and advances \<open>np_random\<close> of the world and has no
  generator argument.
\<close>

definition create_transmitted_symbols ::
    "'g random_ops \<Rightarrow> nat \<Rightarrow> ndarray \<Rightarrow> bool \<Rightarrow> 'g world \<Rightarrow> error + (ndarray \<times> 'g world)" where
  "create_transmitted_symbols ops num_transmitters amps quadrature w =
     (if \<not> quadrature then
        (case choice_array ops amps num_transmitters 1 (np_random w) of
           (s, g1) \<Rightarrow> Inr (s, w\<lparr>np_random := g1\<rparr>))
      else
        (case choice_array ops amps num_transmitters 1 (np_random w) of
           (re, g1) \<Rightarrow>
             (case choice_array ops amps num_transmitters 1 g1 of
                (im, g2) \<Rightarrow>
                  and_then (add re (scale Complex128 \<i> im))
                    (\<lambda>s. Inr (s, w\<lparr>np_random := g2\<rparr>)))))"

text \<open>
  The signal-to-noise ratio is a float: a real number or \<^verbatim>\<open>float('Inf')\<close>.  The
  standard deviation of the noise: \<^verbatim>\<open>Eb = channel_power*constellation_mean_power/
  bits_per_transmitter\<close>, \<^verbatim>\<open>N0 = Eb/SNRb\<close>, \<^verbatim>\<open>sigma = np.sqrt(N0/2)\<close>.
\<close>

datatype pyfloat = Fin real | PInf

definition signal_sigma :: "real \<Rightarrow> real \<Rightarrow> nat \<Rightarrow> real \<Rightarrow> real" where
  "signal_sigma channel_power constellation_mean_power bits_per_transmitter snr =
     (let Eb = channel_power * constellation_mean_power / real bits_per_transmitter;
          N0 = Eb / snr
      in sqrt (N0 / 2))"

text \<open>The square root is not executable; the definition is kept out of evaluation.\<close>

declare signal_sigma_def [code del]

text \<open>The noise of \<^verbatim>\<open>create_signal\<close> when none is given: real when the symbols and the
  channel are both of element type \<open>Float64\<close>, complex otherwise.\<close>

definition create_noise ::
    "'g random_ops \<Rightarrow> real \<Rightarrow> bool \<Rightarrow> nat \<Rightarrow> 'g state_arg \<Rightarrow> error + (ndarray \<times> 'g state_arg)" where
  "create_noise ops sigma real_only num_receivers random_state =
     (if real_only then
        and_then (state_normal ops random_state num_receivers 1)
          (\<lambda>(n, rs). Inr (scale Float64 (complex_of_real sigma) n, rs))
      else
        and_then (state_normal ops random_state num_receivers 1)
          (\<lambda>(nr, rs1). and_then (state_normal ops rs1 num_receivers 1)
            (\<lambda>(ni, rs2). and_then (add nr (scale Complex128 \<i> ni))
              (\<lambda>n. Inr (scale Float64 (complex_of_real sigma) n, rs2)))))"

definition create_signal ::
    "'g random_ops \<Rightarrow> ndarray \<Rightarrow> ndarray option \<Rightarrow> ndarray option \<Rightarrow> pyfloat \<Rightarrow> string
      \<Rightarrow> real option \<Rightarrow> 'g state_arg \<Rightarrow> 'g world
      \<Rightarrow> error + ((ndarray \<times> ndarray \<times> ndarray option \<times> 'g state_arg) \<times> 'g world)" where
  "create_signal ops F transmitted_symbols channel_noise SNRb modulation channel_power_arg
       random_state w =
     and_then (shape_at F 0)
       (\<lambda>num_receivers. and_then (shape_at F 1)
         (\<lambda>num_transmitters.
            let channel_power =
                  (case channel_power_arg of None \<Rightarrow> real num_transmitters | Some p \<Rightarrow> p)
            in and_then (constellation_properties modulation)
                 (\<lambda>(bits_per_transmitter, amps, constellation_mean_power).
                    and_then
                      (case transmitted_symbols of
                         Some ts \<Rightarrow> Inr (ts, random_state, w)
                       | None \<Rightarrow>
                           and_then (materialize ops random_state w)
                             (\<lambda>(rs, w1).
                                and_then
                                  (create_transmitted_symbols ops num_transmitters amps
                                     (modulation \<noteq> ''BPSK'') w1)
                                  (\<lambda>(ts, w2). Inr (ts, rs, w2))))
                      (\<lambda>(ts, rs, w1).
                         case SNRb of
                           PInf \<Rightarrow>
                             and_then (matmul F ts)
                               (\<lambda>y. Inr ((y, ts, channel_noise, rs), w1))
                         | Fin snr \<Rightarrow>
                             if snr \<le> 0
                             then Inl (ValueError ''Expect positive signal to noise ratio.'')
                             else
                               and_then
                                 (case channel_noise of
                                    Some n \<Rightarrow> Inr (n, rs, w1)
                                  | None \<Rightarrow>
                                      and_then (materialize ops rs w1)
                                        (\<lambda>(rs1, w2).
                                           and_then
                                             (create_noise ops
                                                (signal_sigma channel_power
                                                   constellation_mean_power
                                                   bits_per_transmitter snr)
                                                (dtype ts = Float64 \<and> dtype F = Float64)
                                                num_receivers rs1)
                                             (\<lambda>(n, rs2). Inr (n, rs2, w2))))
                                 (\<lambda>(noise, rs1, w2).
                                    and_then (matmul F ts)
                                      (\<lambda>Fv. and_then (add noise Fv)
                                        (\<lambda>y. Inr ((y, ts, Some noise, rs1), w2))))))))"

section \<open>The quadratic model\<close>

text \<open>
  Modelled from the spec: the class \<^verbatim>\<open>dimod.BinaryQuadraticModel\<close> is not among the
  source files.  The specification describes it as a container built from linear
  coefficients, quadratic coefficients, a variable domain tag and an optional offset,
  with \<^verbatim>\<open>relabel_variables(mapping)\<close> and a sum \<^verbatim>\<open>+\<close> that merges variables by identity
  and adds their coefficients; every variable is identified by a plain index or, in a
  cooperative model, by a pair of a basestation and a local index.  The model keeps the
  coefficients as it is given them, one linear entry per variable, in order.
\<close>

datatype 'n label = Index nat | Geometric 'n nat

record 'n bqm =
  linear :: "('n label \<times> real) list"
  quadratic :: "(('n label \<times> 'n label) \<times> real) list"
  offset :: real
  vartype :: string

definition variables :: "'n bqm \<Rightarrow> 'n label list" where
  "variables b = map fst (linear b)"

definition empty_bqm :: "string \<Rightarrow> 'n bqm" where
  "empty_bqm vt = \<lparr>linear = [], quadratic = [], offset = 0, vartype = vt\<rparr>"

text \<open>\<^verbatim>\<open>dimod.BQM(h, J, 'SPIN', offset=offset)\<close> for a vector \<open>h\<close> and a matrix \<open>J\<close>: the
  variables are the indices of \<open>h\<close>.\<close>

definition bqm_of_arrays :: "ndarray \<Rightarrow> ndarray \<Rightarrow> string \<Rightarrow> real \<Rightarrow> 'n bqm" where
  "bqm_of_arrays h J vt off =
     \<lparr>linear = map (\<lambda>i. (Index i, Re (elems h ! i))) [0..<length (elems h)],
      quadratic = concat (map (\<lambda>i. map (\<lambda>j. ((Index i, Index j), Re (at2 J i j)))
                                      [0..<shape J ! 1]) [0..<shape J ! 0]),
      offset = off, vartype = vt\<rparr>"

text \<open>The sum of two models: a coefficient of the second model is added to the entry of
  its key in the first, or appended when the first has no such key.\<close>

fun add_coefficient :: "'k \<Rightarrow> real \<Rightarrow> ('k \<times> real) list \<Rightarrow> ('k \<times> real) list" where
  "add_coefficient k v [] = [(k, v)]"
| "add_coefficient k v ((k', v') # rest) =
     (if k = k' then (k', v' + v) # rest else (k', v') # add_coefficient k v rest)"

definition merge_coefficients :: "('k \<times> real) list \<Rightarrow> ('k \<times> real) list \<Rightarrow> ('k \<times> real) list" where
  "merge_coefficients a b = fold (\<lambda>(k, v). add_coefficient k v) b a"

definition bqm_add :: "'n bqm \<Rightarrow> 'n bqm \<Rightarrow> 'n bqm" where
  "bqm_add a b =
     \<lparr>linear = merge_coefficients (linear a) (linear b),
      quadratic = merge_coefficients (quadratic a) (quadratic b),
      offset = offset a + offset b, vartype = vartype a\<rparr>"

text \<open>\<^verbatim>\<open>relabel_variables({idx: l for idx, l in enumerate(labels)})\<close>: the variable of
  index \<open>idx\<close> gets the label at place \<open>idx\<close> of the list; a variable whose index is no key
  of the mapping keeps its label.\<close>

definition relabel :: "'n label list \<Rightarrow> 'n label \<Rightarrow> 'n label" where
  "relabel labels v =
     (case v of Index i \<Rightarrow> if i < length labels then labels ! i else v | Geometric n i \<Rightarrow> v)"

definition relabel_variables :: "'n bqm \<Rightarrow> 'n label list \<Rightarrow> 'n bqm" where
  "relabel_variables b labels =
     b\<lparr>linear := map (\<lambda>(v, c). (relabel labels v, c)) (linear b),
       quadratic := map (\<lambda>((u, v), c). ((relabel labels u, relabel labels v), c)) (quadratic b)\<rparr>"

section \<open>The single-cell composer\<close>

text \<open>
  \<^verbatim>\<open>spin_encoded_mimo\<close>.  Counts are natural numbers; the seed is \<^verbatim>\<open>None\<close> or an integer
  (a generator object as seed is not modelled).  The block that chooses the channel is a
  function of its own: a generated channel comes with the channel power of
  \<^verbatim>\<open>create_channel\<close>, a given channel with \<^verbatim>\<open>channel_power = num_transmitters\<close>, and
  the seed is turned into a generator only when the channel is generated.
\<close>

definition seed_arg :: "int option \<Rightarrow> 'g state_arg" where
  "seed_arg seed = (case seed of None \<Rightarrow> NoState | Some s \<Rightarrow> SeedInt s)"

definition mimo_channel ::
    "'g random_ops \<Rightarrow> ndarray option \<Rightarrow> nat \<Rightarrow> nat \<Rightarrow> int option \<Rightarrow> (string \<times> string) option
      \<Rightarrow> 'g world \<Rightarrow> error + ((ndarray \<times> nat \<times> 'g state_arg) \<times> 'g world)" where
  "mimo_channel ops F num_receivers num_transmitters seed F_distribution w =
     (case F of
        None \<Rightarrow>
          and_then (RandomState ops seed w)
            (\<lambda>(g, w1).
               and_then (create_channel ops num_receivers num_transmitters F_distribution
                           (Some g) w1)
                 (\<lambda>((F', channel_power, g1), w2). Inr ((F', channel_power, State g1), w2)))
      | Some F' \<Rightarrow> Inr ((F', num_transmitters, seed_arg seed), w))"

definition infer_transmitters ::
    "nat option \<Rightarrow> ndarray option \<Rightarrow> ndarray option \<Rightarrow> error + nat" where
  "infer_transmitters num_transmitters F transmitted_symbols =
     (case num_transmitters of
        Some n \<Rightarrow> Inr n
      | None \<Rightarrow>
          (case F of
             Some F' \<Rightarrow> shape_at F' 1
           | None \<Rightarrow>
               (case transmitted_symbols of
                  Some ts \<Rightarrow> len ts
                | None \<Rightarrow> Inl (ValueError ''num_transmitters is not specified and cannotbe inferred from F or transmitted_symbols (both None)''))))"

definition infer_receivers ::
    "nat option \<Rightarrow> ndarray option \<Rightarrow> ndarray option \<Rightarrow> ndarray option \<Rightarrow> error + nat" where
  "infer_receivers num_receivers F y channel_noise =
     (case num_receivers of
        Some n \<Rightarrow> Inr n
      | None \<Rightarrow>
          (case F of
             Some F' \<Rightarrow> shape_at F' 0
           | None \<Rightarrow>
               (case y of
                  Some y' \<Rightarrow> shape_at y' 0
                | None \<Rightarrow>
                    (case channel_noise of
                       Some n \<Rightarrow> shape_at n 0
                     | None \<Rightarrow> Inl (ValueError ''num_receivers is not specified and cannotbe inferred from F, y or channel_noise (all None)'')))))"

definition spin_encoded_mimo ::
    "'g random_ops \<Rightarrow> string \<Rightarrow> ndarray option \<Rightarrow> ndarray option \<Rightarrow> ndarray option
      \<Rightarrow> ndarray option \<Rightarrow> nat option \<Rightarrow> nat option \<Rightarrow> pyfloat \<Rightarrow> int option
      \<Rightarrow> (string \<times> string) option \<Rightarrow> bool \<Rightarrow> 'g world \<Rightarrow> error + ('n bqm \<times> 'g world)" where
  "spin_encoded_mimo ops modulation y F transmitted_symbols channel_noise num_transmitters_arg
       num_receivers_arg SNRb seed F_distribution use_offset w =
     and_then (infer_transmitters num_transmitters_arg F transmitted_symbols)
       (\<lambda>num_transmitters.
          and_then (infer_receivers num_receivers_arg F y channel_noise)
            (\<lambda>num_receivers.
               if \<not> 0 < num_transmitters
               then Inl (AssertionError ''Expect positive number of transmitters'')
               else if \<not> 0 < num_receivers
               then Inl (AssertionError ''Expect positive number of receivers'')
               else
                 and_then (mimo_channel ops F num_receivers num_transmitters seed
                             F_distribution w)
                   (\<lambda>((F', channel_power, rs), w1).
                      and_then
                        (case y of
                           Some y' \<Rightarrow> Inr (y', w1)
                         | None \<Rightarrow>
                             and_then
                               (create_signal ops F' transmitted_symbols channel_noise SNRb
                                  modulation (Some (real channel_power)) rs w1)
                               (\<lambda>((y', ts, noise, rs1), w2). Inr (y', w2)))
                        (\<lambda>(y', w2).
                           and_then (yF_to_hJ y' F' modulation)
                             (\<lambda>(h, J, off).
                                and_then (column0 h)
                                  (\<lambda>h0.
                                     if use_offset
                                     then Inr (bqm_of_arrays h0 J ''SPIN'' (Re (at2 off 0 0)), w2)
                                     else Inr (bqm_of_arrays h0 (fill_diagonal J 0) ''SPIN'' 0,
                                               w2)))))))"

text \<open>
  The last block of \<^verbatim>\<open>spin_encoded_mimo\<close>, from the signal \<open>y\<close> and the channel \<open>F\<close> to the
  model, once more as a function of its own: \<^verbatim>\<open>h, J, offset = _yF_to_hJ(y, F, modulation)\<close>,
  then \<^verbatim>\<open>dimod.BQM(h[:,0], J, 'SPIN', offset=offset)\<close> with the offset, or the same without
  offset after \<^verbatim>\<open>np.fill_diagonal(J, 0)\<close>.
\<close>

definition mimo_model ::
    "string \<Rightarrow> ndarray \<Rightarrow> ndarray \<Rightarrow> bool \<Rightarrow> 'g world \<Rightarrow> error + ('n bqm \<times> 'g world)" where
  "mimo_model modulation y F use_offset w =
     and_then (yF_to_hJ y F modulation)
       (\<lambda>(h, J, off).
          and_then (column0 h)
            (\<lambda>h0.
               if use_offset
               then Inr (bqm_of_arrays h0 J ''SPIN'' (Re (at2 off 0 0)), w)
               else Inr (bqm_of_arrays h0 (fill_diagonal J 0) ''SPIN'' 0, w)))"

section \<open>The cooperative composer\<close>

text \<open>
  A \<^verbatim>\<open>networkx.Graph\<close>: its nodes in order and the neighbours of every node.  The degree
  of a node counts a loop twice.  The class has the methods \<^verbatim>\<open>number_of_edges()\<close> and
  \<^verbatim>\<open>number_of_nodes()\<close>; it has no attribute \<^verbatim>\<open>num_edges\<close> or \<^verbatim>\<open>num_nodes\<close>, so
  reading \<^verbatim>\<open>lattice.num_edges\<close> raises \<^verbatim>\<open>AttributeError\<close>.
\<close>

record 'n graph =
  nodes :: "'n list"
  neighbors :: "'n \<Rightarrow> 'n list"

definition degree :: "'n graph \<Rightarrow> 'n \<Rightarrow> nat" where
  "degree G v = length (neighbors G v) + (if v \<in> set (neighbors G v) then 1 else 0)"

definition num_edges :: "'n graph \<Rightarrow> error + real" where
  "num_edges G = Inl (AttributeError ''num_edges'')"

definition num_nodes :: "'n graph \<Rightarrow> error + real" where
  "num_nodes G = Inl (AttributeError ''num_nodes'')"

text \<open>\<^verbatim>\<open>SNRb /= (1 + 2*lattice.num_edges/lattice.num_nodes)\<close>, done when
  \<^verbatim>\<open>SNRb < float('Inf')\<close>.\<close>

definition spread_SNRb :: "'n graph \<Rightarrow> pyfloat \<Rightarrow> error + pyfloat" where
  "spread_SNRb lattice SNRb =
     (case SNRb of
        PInf \<Rightarrow> Inr PInf
      | Fin snr \<Rightarrow>
          and_then (num_edges lattice)
            (\<lambda>e. and_then (num_nodes lattice)
              (\<lambda>n. if n = 0 then Inl ZeroDivisionError
                    else Inr (Fin (snr / (1 + 2 * e / n))))))"

text \<open>The dictionaries \<^verbatim>\<open>ys\<close> and \<^verbatim>\<open>Fs\<close>: by default every node has the entry
  \<^verbatim>\<open>None\<close>; \<^verbatim>\<open>ys[bs]\<close> for a missing key raises \<^verbatim>\<open>KeyError\<close>.\<close>

definition cell_entry ::
    "('n \<rightharpoonup> ndarray option) option \<Rightarrow> 'n graph \<Rightarrow> 'n \<Rightarrow> error + ndarray option" where
  "cell_entry d lattice bs =
     (case d of
        None \<Rightarrow> if bs \<in> set (nodes lattice) then Inr None else Inl KeyError
      | Some m \<Rightarrow> (case m bs of None \<Rightarrow> Inl KeyError | Some e \<Rightarrow> Inr e))"

definition geometric_labels :: "'n graph \<Rightarrow> nat \<Rightarrow> 'n \<Rightarrow> 'n label list" where
  "geometric_labels lattice num_transmitters bs =
     map (Geometric bs) [0..<num_transmitters]
     @ concat (map (\<lambda>neigh. map (Geometric neigh) [0..<num_transmitters])
                 (neighbors lattice bs))"

text \<open>The loop over the nodes: one cell per node, relabelled and added to the model.\<close>

fun comp_cells ::
    "'g random_ops \<Rightarrow> 'n graph \<Rightarrow> string \<Rightarrow> ('n \<rightharpoonup> ndarray option) option
      \<Rightarrow> ('n \<rightharpoonup> ndarray option) option \<Rightarrow> ndarray option \<Rightarrow> nat \<Rightarrow> nat \<Rightarrow> pyfloat
      \<Rightarrow> int option \<Rightarrow> (string \<times> string) option \<Rightarrow> bool \<Rightarrow> 'n list \<Rightarrow> 'n bqm \<Rightarrow> 'g world
      \<Rightarrow> error + ('n bqm \<times> 'g world)" where
  "comp_cells ops lattice modulation ys Fs channel_noise num_transmitters num_receivers SNRb
       seed F_distribution use_offset [] bqm w = Inr (bqm, w)"
| "comp_cells ops lattice modulation ys Fs channel_noise num_transmitters num_receivers SNRb
       seed F_distribution use_offset (bs # rest) bqm w =
     and_then (cell_entry ys lattice bs)
       (\<lambda>y. and_then (cell_entry Fs lattice bs)
         (\<lambda>F. and_then
                 (spin_encoded_mimo ops modulation y F None channel_noise
                    (Some (num_transmitters * (1 + degree lattice bs))) (Some num_receivers)
                    SNRb seed F_distribution use_offset w)
                 (\<lambda>(bqm_cell, w1).
                    comp_cells ops lattice modulation ys Fs channel_noise num_transmitters
                      num_receivers SNRb seed F_distribution use_offset rest
                      (bqm_add bqm
                         (relabel_variables bqm_cell
                            (geometric_labels lattice num_transmitters bs)))
                      w1)))"

text \<open>\<^verbatim>\<open>spin_encoded_comp\<close> for a lattice given as a graph (an integer is first turned
  into a graph by \<^verbatim>\<open>_make_honeycomb\<close>).\<close>

definition spin_encoded_comp ::
    "'g random_ops \<Rightarrow> 'n graph \<Rightarrow> string \<Rightarrow> ('n \<rightharpoonup> ndarray option) option
      \<Rightarrow> ('n \<rightharpoonup> ndarray option) option \<Rightarrow> ndarray option \<Rightarrow> ndarray option \<Rightarrow> nat option
      \<Rightarrow> nat option \<Rightarrow> pyfloat \<Rightarrow> int option \<Rightarrow> (string \<times> string) option \<Rightarrow> bool \<Rightarrow> 'g world
      \<Rightarrow> error + ('n bqm \<times> 'g world)" where
  "spin_encoded_comp ops lattice modulation ys Fs transmitted_symbols channel_noise
       num_transmitters_arg num_receivers_arg SNRb seed F_distribution use_offset w =
     (let num_transmitters = (case num_transmitters_arg of None \<Rightarrow> 1 | Some n \<Rightarrow> n);
          num_receivers = (case num_receivers_arg of None \<Rightarrow> 1 | Some n \<Rightarrow> n)
      in if (modulation \<noteq> ''BPSK'' \<and> modulation \<noteq> ''QPSK'') \<or> transmitted_symbols \<noteq> None
         then Inl (ValueError ''Generation of problems for which transmitted symbols arenot all 1 (default BPSK,QPSK) not yet supported.'')
         else
           and_then (spread_SNRb lattice SNRb)
             (\<lambda>SNRb'.
                comp_cells ops lattice modulation ys Fs channel_noise num_transmitters
                  num_receivers SNRb' seed F_distribution use_offset (nodes lattice)
                  (empty_bqm ''SPIN'') w))"

text \<open>A generator for examples: its state is a counter, every normal draw is 1 and an
  integer draw below \<open>n\<close> is the counter modulo \<open>n\<close>.\<close>

definition counter_random :: "nat random_ops" where
  "counter_random =
     \<lparr>rs_seeded = (\<lambda>s. s), rs_normal = (\<lambda>g. (1, Suc g)), rs_randint = (\<lambda>n g. (g mod n, Suc g))\<rparr>"

definition counter_world :: "nat \<Rightarrow> nat world" where
  "counter_world g = \<lparr>np_random = g, os_entropy = (\<lambda>k. k), os_reads = 0\<rparr>"

definition one_node :: "unit graph" where
  "one_node = \<lparr>nodes = [()], neighbors = (\<lambda>v. [])\<rparr>"

text \<open>
  What the statements below ask of the arguments: a matrix with all its entries, a seed
  that \<^verbatim>\<open>RandomState\<close> accepts, a channel distribution that \<^verbatim>\<open>create_channel\<close> knows,
  and a graph without loops whose neighbours are nodes (networkx keeps nodes and
  neighbours without repetition).
\<close>

definition is_matrix :: "nat \<Rightarrow> nat \<Rightarrow> ndarray \<Rightarrow> bool" where
  "is_matrix r c a \<longleftrightarrow> shape a = [r, c] \<and> length (elems a) = r * c"

definition valid_seed :: "int option \<Rightarrow> bool" where
  "valid_seed seed \<longleftrightarrow> (case seed of None \<Rightarrow> True | Some s \<Rightarrow> 0 \<le> s \<and> s < 2 ^ 32)"

definition valid_distribution :: "(string \<times> string) option \<Rightarrow> bool" where
  "valid_distribution d \<longleftrightarrow>
     (case d of None \<Rightarrow> True | Some (a, b) \<Rightarrow> a = ''Normal'' \<or> a = ''Binary'')"

definition simple_graph :: "'n graph \<Rightarrow> bool" where
  "simple_graph G \<longleftrightarrow>
     distinct (nodes G)
     \<and> list_all (\<lambda>v. distinct (neighbors G v) \<and> v \<notin> set (neighbors G v)
                    \<and> set (neighbors G v) \<subseteq> set (nodes G)) (nodes G)"

definition two_nodes :: "bool graph" where
  "two_nodes = \<lparr>nodes = [False, True], neighbors = (\<lambda>v. [\<not> v])\<rparr>"

section \<open>Properties of the symbol and spin codec\<close>


lemma and_then_simps [simp]:
  "and_then (Inl e) f = Inl e"
  "and_then (Inr x) f = f x"
  by (simp_all add: and_then_def)

lemma and_then_Inr_iff:
  "and_then m f = Inr y \<longleftrightarrow> (\<exists>x. m = Inr x \<and> f x = Inr y)"
  by (cases m) simp_all

lemma shape_mat [simp]: "shape (mat dt r c f) = [r, c]"
  and dtype_mat [simp]: "dtype (mat dt r c f) = dt"
  and length_elems_mat [simp]: "length (elems (mat dt r c f)) = r * c"
  by (simp_all add: mat_def)

lemma index_in_range: "i < r \<Longrightarrow> j < c \<Longrightarrow> i * c + j < r * (c::nat)"
proof -
  assume a: "i < r" "j < c"
  then have "i * c + j < Suc i * c" by simp
  also have "\<dots> \<le> r * c" using a(1) by (intro mult_le_mono1) simp
  finally show ?thesis .
qed

lemma at2_mat [simp]: "i < r \<Longrightarrow> j < c \<Longrightarrow> at2 (mat dt r c f) i j = f i j"
  by (simp add: at2_def mat_def index_in_range)

lemma shape_vec [simp]: "shape (vec dt xs) = [length xs]"
  and elems_vec [simp]: "elems (vec dt xs) = xs"
  and dtype_vec [simp]: "dtype (vec dt xs) = dt"
  by (simp_all add: vec_def)

lemma nth_concat_uniform:
  "\<forall>b\<in>set bs. length b = L \<Longrightarrow> p < length bs \<Longrightarrow> i < L \<Longrightarrow> concat bs ! (p * L + i) = bs ! p ! i"
proof (induction bs arbitrary: p)
  case Nil
  then show ?case by simp
next
  case (Cons b bs)
  show ?case
  proof (cases p)
    case 0
    with Cons.prems show ?thesis by (simp add: nth_append)
  next
    case (Suc q)
    with Cons.prems have "concat bs ! (q * L + i) = bs ! q ! i"
      by (intro Cons.IH) auto
    with Suc Cons.prems show ?thesis by (simp add: nth_append add.assoc [symmetric] add.commute)
  qed
qed

lemma length_concat_uniform:
  "\<forall>b\<in>set bs. length b = L \<Longrightarrow> length (concat bs) = length bs * L"
  by (induction bs) auto


lemma promote_Complex128 [simp]: "promote x Complex128 = Complex128" "promote Complex128 x = Complex128"
  by (cases x; simp)+

lemma promote_Int64 [simp]: "promote Int64 x = x" "promote x Int64 = x"
  by (cases x; simp)+

lemma promote_idem [simp]: "promote x x = x"
  by (cases x) simp_all


lemma mat_cong:
  assumes "\<And>i j. i < r \<Longrightarrow> j < c \<Longrightarrow> f i j = g i j"
  shows "mat dt r c f = mat dt r c g"
proof -
  have "f (k div c) (k mod c) = g (k div c) (k mod c)" if "k < r * c" for k
  proof -
    from that have "0 < c" by (cases c) auto
    moreover from that have "k div c < r" by (simp add: less_mult_imp_div_less)
    ultimately show ?thesis by (intro assms) auto
  qed
  then show ?thesis by (simp add: mat_def)
qed

lemma multiply_col:
  assumes "shape a = [k, 1]" "shape b = [k, t]"
  shows "multiply a b = Inr (mat (promote (dtype a) (dtype b)) k t (\<lambda>i j. at2 a i 0 * at2 b i j))"
proof -
  have "mat (promote (dtype a) (dtype b)) (bdim k k) (bdim 1 t)
          (\<lambda>i j. at2 a (if k = 1 then 0 else i) 0 * at2 b (if k = 1 then 0 else i) (if t = 1 then 0 else j))
        = mat (promote (dtype a) (dtype b)) k t (\<lambda>i j. at2 a i 0 * at2 b i j)"
    unfolding bdim_def by (simp, intro mat_cong) auto
  with assms show ?thesis by (simp add: multiply_def)
qed

lemma sum_axis0_mat:
  "sum_axis0 (mat dt r c f) = vec dt (map (\<lambda>j. \<Sum>i\<leftarrow>[0..<r]. f i j) [0..<c])"
proof -
  have "(\<Sum>i\<leftarrow>[0..<r]. at2 (mat dt r c f) i j) = (\<Sum>i\<leftarrow>[0..<r]. f i j)" if "j < c" for j
    using that by (intro arg_cong [where f = sum_list] map_cong) auto
  then show ?thesis by (simp add: sum_axis0_def)
qed

lemma amps_at:
  "p < k \<Longrightarrow> at2 (newaxis_col (two_power (arange k))) p 0 = of_int (pow2 p)"
  by (simp add: at2_def newaxis_col_def two_power_def arange_def)

lemma amps_shape: "shape (newaxis_col (two_power (arange k))) = [k, 1]"
  and amps_dtype: "dtype (newaxis_col (two_power (arange k))) = Int64"
  by (simp_all add: newaxis_col_def two_power_def arange_def)

lemma vector_of_len:
  assumes "vector_of n a"
  shows "len a = Inr n" and "prod_list (shape a) = n"
  using assms by (auto simp: vector_of_def len_def)

lemma spins_to_symbols_planes:
  assumes sh: "vector_of (k * (2 * t)) s" and t: "0 < t" and k: "k \<le> 64"
  shows "spins_to_symbols s m (Some t) =
           Inr \<lparr>dtype = Complex128, shape = [t],
                elems = map (\<lambda>i. (\<Sum>p\<leftarrow>[0..<k]. of_int (pow2 p) * elems s ! (p * (2 * t) + i))
                              + \<i> * (\<Sum>p\<leftarrow>[0..<k]. of_int (pow2 p) * elems s ! (p * (2 * t) + t + i)))
                          [0..<t]\<rparr>"
proof -
  have ne: "t \<noteq> k * (2 * t)"
  proof (cases k)
    case 0
    with t show ?thesis by simp
  next
    case (Suc j)
    with t show ?thesis by simp
  qed
  define sR where "sR = s\<lparr>shape := [k, 2 * t]\<rparr>"
  let ?amps = "newaxis_col (two_power (arange k))"
  have up: "cols_upto sR t = mat (dtype s) k t (\<lambda>i j. elems s ! (i * (2 * t) + j))"
    by (simp add: cols_upto_def sR_def at2_def)
  have fr: "cols_from sR t = mat (dtype s) k t (\<lambda>i j. elems s ! (i * (2 * t) + t + j))"
    by (simp add: cols_from_def sR_def at2_def add.assoc)
  have m1: "multiply ?amps (cols_upto sR t) =
      Inr (mat (dtype s) k t (\<lambda>i j. of_int (pow2 i) * elems s ! (i * (2 * t) + j)))"
    unfolding up
    by (subst multiply_col [where k = k and t = t])
      (auto simp: amps_shape amps_dtype amps_at intro!: mat_cong)
  have m2: "multiply ?amps (cols_from sR t) =
      Inr (mat (dtype s) k t (\<lambda>i j. of_int (pow2 i) * elems s ! (i * (2 * t) + t + j)))"
    unfolding fr
    by (subst multiply_col [where k = k and t = t])
      (auto simp: amps_shape amps_dtype amps_at intro!: mat_cong)
  have rs: "reshape s k (2 * t) = Inr sR"
    using vector_of_len(2) [OF sh] by (simp add: reshape_def sR_def)
  note ln = vector_of_len(1) [OF sh]
  have dm: "k * (2 * t) div (2 * t) = k" "k * (2 * t) mod (2 * t) = 0"
    using t by simp_all
  show ?thesis
    using ne t k
    by (simp add: spins_to_symbols_def ln dm rs m1 m2 sum_axis0_mat add_def scale_def
        zip_map_map)
      (simp add: map_upt_eqI zip_same_conv_map)
qed


lemma valid_16: "valid_symbol ''16QAM'' z \<longleftrightarrow> Re z \<in> {1, -1, 3, -3} \<and> Im z \<in> {1, -1, 3, -3}"
  by (auto simp add: valid_symbol_def signed_amplitudes_def constellation_properties_def odd_amps_def
      upt_rec complex_eq_iff)

lemma valid_64: "valid_symbol ''64QAM'' z \<longleftrightarrow>
    Re z \<in> {1, -1, 3, -3, 5, -5, 7, -7} \<and> Im z \<in> {1, -1, 3, -3, 5, -5, 7, -7}"
  by (auto simp add: valid_symbol_def signed_amplitudes_def constellation_properties_def odd_amps_def
      upt_rec complex_eq_iff)

lemma valid_Q: "valid_symbol ''QPSK'' z \<longleftrightarrow> Re z \<in> {1, -1} \<and> Im z \<in> {1, -1}"
  by (auto simp add: valid_symbol_def signed_amplitudes_def constellation_properties_def ones_def
      complex_eq_iff)

lemma valid_B: "valid_symbol ''BPSK'' z \<longleftrightarrow> z \<in> {1, -1}"
  by (auto simp add: valid_symbol_def signed_amplitudes_def constellation_properties_def ones_def
      complex_eq_iff)



lemma tab2_props:
  assumes "x \<in> {1, -1, 3, -3}"
  shows "\<exists>a b. symb_to_spins 2 (complex_of_real x) = Some [a, b] \<and> a \<in> {-1, 1} \<and> b \<in> {-1, 1}
           \<and> real_of_int (a + 2 * b) = x"
  using assms by (auto simp add: symb_to_spins_def spin_key_def eval_nat_numeral)

lemma tab3_props:
  assumes "x \<in> {1, -1, 3, -3, 5, -5, 7, -7}"
  shows "\<exists>a b c. symb_to_spins 3 (complex_of_real x) = Some [a, b, c]
           \<and> a \<in> {-1, 1} \<and> b \<in> {-1, 1} \<and> c \<in> {-1, 1}
           \<and> real_of_int (a + 2 * b + 4 * c) = x"
  using assms by (auto simp add: symb_to_spins_def spin_key_def eval_nat_numeral)

lemma traverse_Inr:
  "(\<And>x. x \<in> set xs \<Longrightarrow> f x = Inr (g x)) \<Longrightarrow> traverse f xs = Inr (map g xs)"
  by (induction xs) simp_all

lemma spin_plane_Inr:
  assumes "\<And>x. x \<in> set xs \<Longrightarrow> tab x \<noteq> None"
  shows "spin_plane tab p xs = Inr (map (\<lambda>x. the (tab x) ! p) xs)"
  unfolding spin_plane_def using assms by (intro traverse_Inr) (auto split: option.splits)

lemma concatenate0_vec:
  assumes "is_vec a" "is_vec b"
  shows "\<exists>r. concatenate0 a b = Inr r \<and> is_vec r \<and> elems r = elems a @ elems b"
  using assms by (simp add: concatenate0_def is_vec_def)

lemma concatenate_list_vec:
  assumes "xs \<noteq> []" "\<forall>a\<in>set xs. is_vec a"
  shows "\<exists>r. concatenate_list xs = Inr r \<and> is_vec r \<and> elems r = concat (map elems xs)"
  using assms
proof (induction xs rule: concatenate_list.induct)
  case 1
  then show ?case by simp
next
  case (2 a)
  then show ?case by (auto simp: is_vec_def)
next
  case (3 a b bs)
  then show ?case by (auto simp: is_vec_def concatenate0_def)
qed


lemma concatenate0_of_ints:
  "concatenate0 (of_ints a) (of_ints b) =
     Inr \<lparr>dtype = promote (dtype (of_ints a)) (dtype (of_ints b)), shape = [length a + length b],
          elems = map of_int a @ map of_int b\<rparr>"
  by (simp add: concatenate0_def of_ints_def)

lemma qam_spins_planes:
  assumes k: "0 < k"
    and dom: "\<And>z. z \<in> set (elems v) \<Longrightarrow>
           symb_to_spins k (complex_of_real (Re z)) \<noteq> None
         \<and> symb_to_spins k (complex_of_real (Im z)) \<noteq> None"
  shows "\<exists>S. qam_spins k v = Inr S \<and> shape S = [length (elems S)]
           \<and> elems S = concat (map (\<lambda>p. map (\<lambda>z. of_int (spin_digit k p (Re z))) (elems v)
                                      @ map (\<lambda>z. of_int (spin_digit k p (Im z))) (elems v)) [0..<k])"
proof -
  define g where "g p =
     \<lparr>dtype = promote (dtype (of_ints (map (\<lambda>z. spin_digit k p (Re z)) (elems v))))
                       (dtype (of_ints (map (\<lambda>z. spin_digit k p (Im z)) (elems v)))),
       shape = [length (elems v) + length (elems v)],
       elems = map (\<lambda>z. of_int (spin_digit k p (Re z))) (elems v)
             @ map (\<lambda>z. of_int (spin_digit k p (Im z))) (elems v)\<rparr>" for p
  have re: "spin_plane (symb_to_spins k) p (elems (flatten (real_part v)))
              = Inr (map (\<lambda>z. spin_digit k p (Re z)) (elems v))" for p
    using dom by (subst spin_plane_Inr) (auto simp: flatten_def real_part_def spin_digit_def)
  have im: "spin_plane (symb_to_spins k) p (elems (flatten (imag_part v)))
              = Inr (map (\<lambda>z. spin_digit k p (Im z)) (elems v))" for p
    using dom by (subst spin_plane_Inr) (auto simp: flatten_def imag_part_def spin_digit_def)
  have tr: "traverse
          (\<lambda>prec.
             and_then (spin_plane (symb_to_spins k) prec (elems (flatten (real_part v))))
               (\<lambda>re. and_then (spin_plane (symb_to_spins k) prec (elems (flatten (imag_part v))))
                 (\<lambda>im. concatenate0 (of_ints re) (of_ints im))))
          [0..<k] = Inr (map g [0..<k])"
    by (intro traverse_Inr) (simp add: re im concatenate0_of_ints g_def o_def)
  have "\<exists>r. concatenate_list (map g [0..<k]) = Inr r \<and> is_vec r
            \<and> elems r = concat (map elems (map g [0..<k]))"
    using k by (intro concatenate_list_vec) (auto simp: is_vec_def g_def)
  then obtain r where r: "concatenate_list (map g [0..<k]) = Inr r" "is_vec r"
    "elems r = concat (map elems (map g [0..<k]))" by blast
  have "elems r = concat (map (\<lambda>p. map (\<lambda>z. of_int (spin_digit k p (Re z))) (elems v)
                                      @ map (\<lambda>z. of_int (spin_digit k p (Im z))) (elems v)) [0..<k])"
    by (simp add: r(3) g_def o_def)
  with r show ?thesis
    by (simp add: qam_spins_def tr is_vec_def)
qed


lemma pow2_small [simp]:
  "pow2 0 = 1" "pow2 1 = 2" "pow2 2 = 4" "pow2 (Suc 0) = 2" "pow2 (Suc (Suc 0)) = 4"
  by (simp_all add: pow2_def)

lemma digits2:
  assumes "x \<in> {1, -1, 3, -3}"
  shows "symb_to_spins 2 (complex_of_real x) \<noteq> None"
    and "p < 2 \<Longrightarrow> spin_digit 2 p x \<in> {-1, 1}"
    and "plane_sum 2 (\<lambda>p. spin_digit 2 p x) = x"
proof -
  from tab2_props [OF assms] obtain a b where
    t: "symb_to_spins 2 (complex_of_real x) = Some [a, b]"
    and ab: "a \<in> {-1, 1}" "b \<in> {-1, 1}" and s: "real_of_int (a + 2 * b) = x"
    by blast
  show "symb_to_spins 2 (complex_of_real x) \<noteq> None" using t by simp
  show "spin_digit 2 p x \<in> {-1, 1}" if "p < 2"
  proof -
    from that have "p = 0 \<or> p = 1" by auto
    then show ?thesis using ab by (auto simp: spin_digit_def t)
  qed
  have "[0..<2] = [0, Suc 0]" by (simp add: upt_rec)
  then show "plane_sum 2 (\<lambda>p. spin_digit 2 p x) = x"
    using s by (simp add: plane_sum_def spin_digit_def t)
qed

lemma digits3:
  assumes "x \<in> {1, -1, 3, -3, 5, -5, 7, -7}"
  shows "symb_to_spins 3 (complex_of_real x) \<noteq> None"
    and "p < 3 \<Longrightarrow> spin_digit 3 p x \<in> {-1, 1}"
    and "plane_sum 3 (\<lambda>p. spin_digit 3 p x) = x"
proof -
  from tab3_props [OF assms] obtain a b c where
    t: "symb_to_spins 3 (complex_of_real x) = Some [a, b, c]"
    and ab: "a \<in> {-1, 1}" "b \<in> {-1, 1}" "c \<in> {-1, 1}"
    and s: "real_of_int (a + 2 * b + 4 * c) = x"
    by blast
  show "symb_to_spins 3 (complex_of_real x) \<noteq> None" using t by simp
  show "spin_digit 3 p x \<in> {-1, 1}" if "p < 3"
  proof -
    from that have "p = 0 \<or> p = 1 \<or> p = 2" by auto
    then show ?thesis using ab by (auto simp: spin_digit_def t)
  qed
  have "[0..<3] = [0, Suc 0, Suc (Suc 0)]" by (simp add: upt_rec)
  then show "plane_sum 3 (\<lambda>p. spin_digit 3 p x) = x"
    using s by (simp add: plane_sum_def spin_digit_def t)
qed

lemma planes_nth:
  fixes f g :: "nat \<Rightarrow> 'a \<Rightarrow> 'b" and vs :: "'a list"
  defines "S \<equiv> \<lambda>k. concat (map (\<lambda>p. map (f p) vs @ map (g p) vs) [0..<k])"
  assumes "p < k" "i < length vs"
  shows "S k ! (p * (2 * length vs) + i) = f p (vs ! i)"
    and "S k ! (p * (2 * length vs) + length vs + i) = g p (vs ! i)"
proof -
  let ?bs = "map (\<lambda>p. map (f p) vs @ map (g p) vs) [0..<k]"
  have u: "\<forall>b\<in>set ?bs. length b = 2 * length vs" by auto
  have "concat ?bs ! (p * (2 * length vs) + i) = ?bs ! p ! i"
    using assms(2,3) by (intro nth_concat_uniform [OF u]) auto
  then show "S k ! (p * (2 * length vs) + i) = f p (vs ! i)"
    using assms(2,3) by (simp add: S_def nth_append)
  have "concat ?bs ! (p * (2 * length vs) + (length vs + i)) = ?bs ! p ! (length vs + i)"
    using assms(2,3) by (intro nth_concat_uniform [OF u]) auto
  then show "S k ! (p * (2 * length vs) + length vs + i) = g p (vs ! i)"
    using assms(2,3) by (simp add: S_def nth_append add.assoc)
qed

lemma planes_length:
  "length (concat (map (\<lambda>p. map (f p) vs @ map (g p) vs) [0..<k])) = k * (2 * length vs)"
proof -
  let ?bs = "map (\<lambda>p. map (f p) vs @ map (g p) vs) [0..<k]"
  have u: "\<forall>b\<in>set ?bs. length b = 2 * length vs" by auto
  show ?thesis using length_concat_uniform [OF u] by simp
qed




lemma valid_digits:
  assumes mk: "(m, k) \<in> {(''16QAM'', 2), (''64QAM'', 3)}" and z: "valid_symbol m z"
  shows "symb_to_spins k (complex_of_real (Re z)) \<noteq> None"
    and "symb_to_spins k (complex_of_real (Im z)) \<noteq> None"
    and "p < k \<Longrightarrow> spin_digit k p (Re z) \<in> {-1, 1}"
    and "p < k \<Longrightarrow> spin_digit k p (Im z) \<in> {-1, 1}"
    and "plane_sum k (\<lambda>p. spin_digit k p (Re z)) = Re z"
    and "plane_sum k (\<lambda>p. spin_digit k p (Im z)) = Im z"
proof -
  consider (a) "m = ''16QAM''" "k = 2" | (b) "m = ''64QAM''" "k = 3"
    using mk by auto
  then have "symb_to_spins k (complex_of_real (Re z)) \<noteq> None
    \<and> symb_to_spins k (complex_of_real (Im z)) \<noteq> None
    \<and> (p < k \<longrightarrow> spin_digit k p (Re z) \<in> {-1, 1})
    \<and> (p < k \<longrightarrow> spin_digit k p (Im z) \<in> {-1, 1})
    \<and> plane_sum k (\<lambda>p. spin_digit k p (Re z)) = Re z
    \<and> plane_sum k (\<lambda>p. spin_digit k p (Im z)) = Im z"
  proof cases
    case a
    with z have r: "Re z \<in> {1, -1, 3, -3}" and i: "Im z \<in> {1, -1, 3, -3}"
      by (simp_all add: valid_16)
    show ?thesis
      unfolding a(2) using digits2 [OF r] digits2 [OF i] by blast
  next
    case b
    with z have r: "Re z \<in> {1, -1, 3, -3, 5, -5, 7, -7}"
      and i: "Im z \<in> {1, -1, 3, -3, 5, -5, 7, -7}"
      by (simp_all add: valid_64)
    show ?thesis
      unfolding b(2) using digits3 [OF r] digits3 [OF i] by blast
  qed
  then show "symb_to_spins k (complex_of_real (Re z)) \<noteq> None"
    and "symb_to_spins k (complex_of_real (Im z)) \<noteq> None"
    and "p < k \<Longrightarrow> spin_digit k p (Re z) \<in> {-1, 1}"
    and "p < k \<Longrightarrow> spin_digit k p (Im z) \<in> {-1, 1}"
    and "plane_sum k (\<lambda>p. spin_digit k p (Re z)) = Re z"
    and "plane_sum k (\<lambda>p. spin_digit k p (Im z)) = Im z"
    by blast+
qed

lemma symbols_to_spins_qam:
  assumes mk: "(m, k) \<in> {(''16QAM'', 2), (''64QAM'', 3)}" and "valid_symbols m v"
  shows "\<exists>S. symbols_to_spins v m = Inr S \<and> shape S = [k * (2 * length (elems v))]
           \<and> elems S = concat (map (\<lambda>p. map (\<lambda>z. of_int (spin_digit k p (Re z))) (elems v)
                                      @ map (\<lambda>z. of_int (spin_digit k p (Im z))) (elems v)) [0..<k])"
proof -
  from assms have v: "len v = Inr (length (elems v))"
    and val: "\<And>z. z \<in> set (elems v) \<Longrightarrow> valid_symbol m z"
    by (auto simp: valid_symbols_def list_all_iff vector_of_len)
  from mk have k: "0 < k" by auto
  have "\<exists>S. qam_spins k v = Inr S \<and> shape S = [length (elems S)]
           \<and> elems S = concat (map (\<lambda>p. map (\<lambda>z. of_int (spin_digit k p (Re z))) (elems v)
                                      @ map (\<lambda>z. of_int (spin_digit k p (Im z))) (elems v)) [0..<k])"
    using k valid_digits(1,2) [OF mk val] by (intro qam_spins_planes) auto
  then obtain S where S: "qam_spins k v = Inr S" "shape S = [length (elems S)]"
     "elems S = concat (map (\<lambda>p. map (\<lambda>z. of_int (spin_digit k p (Re z))) (elems v)
                                      @ map (\<lambda>z. of_int (spin_digit k p (Im z))) (elems v)) [0..<k])"
    by blast
  have "length (elems S) = k * (2 * length (elems v))"
    unfolding S(3) by (rule planes_length)
  with S mk show ?thesis
    by (auto simp add: symbols_to_spins_def v)
qed


lemma of_real_sum_list:
  "complex_of_real (\<Sum>x\<leftarrow>xs. f x) = (\<Sum>x\<leftarrow>xs. complex_of_real (f x))"
  by (induction xs) simp_all

lemma decode_planes:
  assumes mk: "(m, k) \<in> {(''16QAM'', 2), (''64QAM'', 3)}"
    and val: "\<And>z. z \<in> set vs \<Longrightarrow> valid_symbol m z"
    and i: "i < length vs"
  defines "S \<equiv> concat (map (\<lambda>p. map (\<lambda>z. complex_of_int (spin_digit k p (Re z))) vs
                                @ map (\<lambda>z. complex_of_int (spin_digit k p (Im z))) vs) [0..<k])"
  shows "(\<Sum>p\<leftarrow>[0..<k]. complex_of_int (pow2 p) * S ! (p * (2 * length vs) + i))
           = complex_of_real (Re (vs ! i))"
    and "(\<Sum>p\<leftarrow>[0..<k]. complex_of_int (pow2 p) * S ! (p * (2 * length vs) + length vs + i))
           = complex_of_real (Im (vs ! i))"
proof -
  from i have zi: "vs ! i \<in> set vs" by simp
  have "(\<Sum>p\<leftarrow>[0..<k]. complex_of_int (pow2 p) * S ! (p * (2 * length vs) + i))
      = (\<Sum>p\<leftarrow>[0..<k]. complex_of_int (pow2 p) * complex_of_int (spin_digit k p (Re (vs ! i))))"
    unfolding S_def using i
    by (intro arg_cong [where f = sum_list] map_cong refl) (simp add: planes_nth(1))
  also have "\<dots> = complex_of_real (plane_sum k (\<lambda>p. spin_digit k p (Re (vs ! i))))"
    by (simp add: plane_sum_def of_real_sum_list o_def)
  finally show "(\<Sum>p\<leftarrow>[0..<k]. complex_of_int (pow2 p) * S ! (p * (2 * length vs) + i))
           = complex_of_real (Re (vs ! i))"
    using valid_digits(5) [OF mk val [OF zi]] by simp
  have "(\<Sum>p\<leftarrow>[0..<k]. complex_of_int (pow2 p) * S ! (p * (2 * length vs) + length vs + i))
      = (\<Sum>p\<leftarrow>[0..<k]. complex_of_int (pow2 p) * complex_of_int (spin_digit k p (Im (vs ! i))))"
    unfolding S_def using i
    by (intro arg_cong [where f = sum_list] map_cong refl) (simp add: planes_nth(2))
  also have "\<dots> = complex_of_real (plane_sum k (\<lambda>p. spin_digit k p (Im (vs ! i))))"
    by (simp add: plane_sum_def of_real_sum_list o_def)
  finally show "(\<Sum>p\<leftarrow>[0..<k]. complex_of_int (pow2 p) * S ! (p * (2 * length vs) + length vs + i))
           = complex_of_real (Im (vs ! i))"
    using valid_digits(6) [OF mk val [OF zi]] by simp
qed



lemma spins_to_symbols_returns:
  assumes sh: "vector_of n s" and "t \<noteq> n" "0 < t" "n div (2 * t) \<le> 64" "2 * t dvd n"
  shows "\<exists>r. spins_to_symbols s m (Some t) = Inr r \<and> shape r = [t]"
proof -
  from assms(5) have n: "n = n div (2 * t) * (2 * t)" by simp
  have "vector_of (n div (2 * t) * (2 * t)) s" using sh n by simp
  from spins_to_symbols_planes [OF this assms(3,4)] show ?thesis by simp
qed

text \<open>
  Claim C8, as the code has it.  For a spin vector \<open>s\<close> of length \<open>n\<close> and a declared
  transmitter count \<open>t\<close>: when \<open>t = n\<close> the function returns \<open>s\<close> unchanged and checks
  nothing; when \<open>t = 0 \<noteq> n\<close> the division raises \<^verbatim>\<open>ZeroDivisionError\<close>; otherwise it
  raises \<^verbatim>\<open>ValueError\<close> when \<open>n div (2 * t)\<close> exceeds 64, raises \<^verbatim>\<open>ValueError\<close>
  when \<open>2 * t\<close> does not divide \<open>n\<close>, and in every other case returns \<open>t\<close> symbols.
\<close>

theorem spins_to_symbols_guards:
  assumes sh: "vector_of n s"
  shows "(t = n \<longrightarrow> spins_to_symbols s m (Some t) = Inr s)
    \<and> (t \<noteq> n \<and> t = 0 \<longrightarrow> spins_to_symbols s m (Some t) = Inl ZeroDivisionError)
    \<and> (t \<noteq> n \<and> 0 < t \<and> 64 < n div (2 * t) \<longrightarrow>
           spins_to_symbols s m (Some t) = Inl (ValueError ''Complex encoding is limited to 64 bits inreal and imaginary parts; num_transmitters istoo small''))
    \<and> (t \<noteq> n \<and> 0 < t \<and> n div (2 * t) \<le> 64 \<and> \<not> 2 * t dvd n \<longrightarrow>
           spins_to_symbols s m (Some t)
             = Inl (ValueError ''num_spins must be divisible by num_transmitters for modulation schemes''))
    \<and> (t \<noteq> n \<and> 0 < t \<and> n div (2 * t) \<le> 64 \<and> 2 * t dvd n \<longrightarrow>
           (\<exists>r. spins_to_symbols s m (Some t) = Inr r \<and> shape r = [t]))"
proof (intro conjI impI)
  show "t = n \<Longrightarrow> spins_to_symbols s m (Some t) = Inr s"
    by (simp add: spins_to_symbols_def vector_of_len(1) [OF sh])
  show "t \<noteq> n \<and> t = 0 \<Longrightarrow> spins_to_symbols s m (Some t) = Inl ZeroDivisionError"
    by (simp add: spins_to_symbols_def vector_of_len(1) [OF sh])
  show "t \<noteq> n \<and> 0 < t \<and> 64 < n div (2 * t) \<Longrightarrow>
           spins_to_symbols s m (Some t) = Inl (ValueError ''Complex encoding is limited to 64 bits inreal and imaginary parts; num_transmitters istoo small'')"
    by (simp add: spins_to_symbols_def vector_of_len(1) [OF sh] Let_def)
  show "t \<noteq> n \<and> 0 < t \<and> n div (2 * t) \<le> 64 \<and> \<not> 2 * t dvd n \<Longrightarrow>
           spins_to_symbols s m (Some t)
             = Inl (ValueError ''num_spins must be divisible by num_transmitters for modulation schemes'')"
    by (simp add: spins_to_symbols_def vector_of_len(1) [OF sh] Let_def dvd_eq_mod_eq_0)
  show "t \<noteq> n \<and> 0 < t \<and> n div (2 * t) \<le> 64 \<and> 2 * t dvd n \<Longrightarrow>
           \<exists>r. spins_to_symbols s m (Some t) = Inr r \<and> shape r = [t]"
    using spins_to_symbols_returns [OF sh] by blast
qed

theorem spins_to_symbols_guards_witness:
  "spins_to_symbols (vec Float64 [1, 1, 1]) None (Some 3) = Inr (vec Float64 [1, 1, 1])
   \<and> spins_to_symbols (vec Float64 [1, 1]) None (Some 0) = Inl ZeroDivisionError
   \<and> spins_to_symbols (vec Float64 [1, 1, 1]) None (Some 1)
       = Inl (ValueError ''num_spins must be divisible by num_transmitters for modulation schemes'')
   \<and> (\<exists>r. spins_to_symbols (matrix Float64 [[1], [1], [-1], [1]]) None (Some 1) = Inr r
          \<and> shape r = [1])"
  using spins_to_symbols_guards [of 3 "vec Float64 [1, 1, 1]" 3 None]
    spins_to_symbols_guards [of 2 "vec Float64 [1, 1]" 0 None]
    spins_to_symbols_guards [of 3 "vec Float64 [1, 1, 1]" 1 None]
    spins_to_symbols_guards [of 4 "matrix Float64 [[1], [1], [-1], [1]]" 1 None]
  by (simp add: vector_of_def matrix_def)

text \<open>
  The claim as stated fails where the transmitter count equals the number of spins: one
  spin and one transmitter, \<open>2 * 1\<close> does not divide 1, and the spin is returned.
\<close>

theorem spins_to_symbols_undivisible_counterexample:
  "\<not> 2 * 1 dvd length [1 :: complex]
   \<and> spins_to_symbols (vec Float64 [1]) None (Some 1) = Inr (vec Float64 [1])"
  by (simp add: spins_to_symbols_def len_def)

lemma symbols_to_spins_QPSK:
  assumes "vector_of (length (elems v)) v"
  shows "\<exists>S. symbols_to_spins v ''QPSK'' = Inr S
           \<and> vector_of (length (elems v) + length (elems v)) S
           \<and> shape S = (length (elems v) + length (elems v)) # tl (shape v)
           \<and> elems S = map (\<lambda>z. complex_of_real (Re z)) (elems v)
                      @ map (\<lambda>z. complex_of_real (Im z)) (elems v)"
  using assms
  by (auto simp: symbols_to_spins_def len_def concatenate0_def real_part_def imag_part_def
      vector_of_def)

text \<open>
  Claim C1.  For each of the four supported modulations and every vector \<open>v\<close> of valid
  constellation symbols, \<^verbatim>\<open>spins_to_symbols(symbols_to_spins(v, m), m, len(v))\<close>
  returns the entries of \<open>v\<close>, and an array equal to \<open>v\<close> when \<open>v\<close> has one axis (for a
  column \<open>v\<close> and a modulation other than BPSK the result has one axis).
\<close>

theorem round_trip:
  assumes m: "modulation \<in> {''BPSK'', ''QPSK'', ''16QAM'', ''64QAM''}"
    and v: "valid_symbols modulation v"
  shows "\<exists>n s r. len v = Inr n \<and> symbols_to_spins v modulation = Inr s
           \<and> spins_to_symbols s (Some modulation) (Some n) = Inr r
           \<and> elems r = elems v \<and> (shape v = [n] \<longrightarrow> array_equal r v)"
proof -
  define n where "n = length (elems v)"
  from v have sh: "vector_of n v"
    and val: "\<And>z. z \<in> set (elems v) \<Longrightarrow> valid_symbol modulation z"
    by (auto simp: valid_symbols_def list_all_iff n_def)
  note ln = vector_of_len(1) [OF sh]
  define k :: nat where "k = (if modulation = ''16QAM'' then 2 else 3)"
  consider (B) "modulation = ''BPSK''" | (Q) "modulation = ''QPSK''"
    | (A) "(modulation, k) \<in> {(''16QAM'', 2), (''64QAM'', 3)}"
    using m by (auto simp: k_def)
  then have "\<exists>s r. symbols_to_spins v modulation = Inr s
           \<and> spins_to_symbols s (Some modulation) (Some n) = Inr r
           \<and> elems r = elems v \<and> (shape v = [n] \<longrightarrow> array_equal r v)"
  proof cases
    case B
    then show ?thesis
      by (simp add: symbols_to_spins_def spins_to_symbols_def ln array_equal_def)
  next
    case Q
    from symbols_to_spins_QPSK [of v] sh obtain S where
      S: "symbols_to_spins v modulation = Inr S" "vector_of (n + n) S"
      "shape S = (n + n) # tl (shape v)"
      "elems S = map (\<lambda>z. complex_of_real (Re z)) (elems v)
               @ map (\<lambda>z. complex_of_real (Im z)) (elems v)"
      unfolding Q n_def by blast
    show ?thesis
    proof (cases "n = 0")
      case True
      then show ?thesis
        using S(1,3,4) vector_of_len(1) [OF S(2)]
        by (auto simp: spins_to_symbols_def array_equal_def n_def)
    next
      case False
      then have pos: "0 < n" by simp
      have "vector_of (1 * (2 * n)) S" using S(2) by (simp add: mult_2)
      from spins_to_symbols_planes [OF this pos, of "Some modulation"]
      have "spins_to_symbols S (Some modulation) (Some n) =
          Inr \<lparr>dtype = Complex128, shape = [n],
               elems = map (\<lambda>i. elems S ! i + \<i> * elems S ! (n + i)) [0..<n]\<rparr>"
        by simp
      moreover have "map (\<lambda>i. elems S ! i + \<i> * elems S ! (n + i)) [0..<n] = elems v"
        unfolding S(4) by (intro nth_equalityI) (simp_all add: n_def nth_append complex_eq_iff)
      ultimately show ?thesis using S(1) by (simp add: array_equal_def)
    qed
  next
    case A
    from symbols_to_spins_qam [OF A v] obtain S where
      S: "symbols_to_spins v modulation = Inr S" "shape S = [k * (2 * n)]"
      "elems S = concat (map (\<lambda>p. map (\<lambda>z. of_int (spin_digit k p (Re z))) (elems v)
                                  @ map (\<lambda>z. of_int (spin_digit k p (Im z))) (elems v)) [0..<k])"
      unfolding n_def by blast
    from S(2) have vS: "vector_of (k * (2 * n)) S" by (simp add: vector_of_def)
    show ?thesis
    proof (cases "n = 0")
      case True
      then show ?thesis
        using S by (simp add: spins_to_symbols_def len_def array_equal_def n_def)
    next
      case False
      then have pos: "0 < n" by simp
      from A have k: "k \<le> 64" by auto
      have "map (\<lambda>i. (\<Sum>p\<leftarrow>[0..<k]. of_int (pow2 p) * elems S ! (p * (2 * n) + i))
                  + \<i> * (\<Sum>p\<leftarrow>[0..<k]. of_int (pow2 p) * elems S ! (p * (2 * n) + n + i)))
              [0..<n] = elems v"
        unfolding S(3) n_def
        by (intro nth_equalityI)
          (simp_all add: decode_planes [OF A val] complex_eq_iff)
      with spins_to_symbols_planes [OF vS pos k, of "Some modulation"] S(1)
      show ?thesis by (simp add: array_equal_def)
    qed
  qed
  with ln show ?thesis by blast
qed

lemma weights_pow2:
  assumes "(m, ws) \<in> {(''16QAM'', [1, 2]), (''64QAM'', [1, 2, 4])}"
  shows "(m, length ws) \<in> {(''16QAM'', 2), (''64QAM'', 3)}"
    and "p < length ws \<Longrightarrow> ws ! p = pow2 p"
proof -
  show "(m, length ws) \<in> {(''16QAM'', 2), (''64QAM'', 3)}" using assms by auto
  show "ws ! p = pow2 p" if "p < length ws"
  proof -
    consider "ws = [1, 2]" | "ws = [1, 2, 4]" using assms by auto
    then show ?thesis
    proof cases
      case 1
      with that have "p = 0 \<or> p = 1" by auto
      with 1 show ?thesis by auto
    next
      case 2
      with that have "p = 0 \<or> p = 1 \<or> p = 2" by auto
      with 2 show ?thesis by auto
    qed
  qed
qed

text \<open>
  Claim C7, as the code has it.  For 16QAM and 64QAM and a vector \<open>v\<close> of \<open>n\<close> valid
  symbols, the spin vector has one group of \<open>2 * n\<close> spins per bit plane, real-part spins
  before imaginary-part spins in each group, every spin is \<open>1\<close> or \<open>- 1\<close>, and the groups
  come least significant first: group \<open>p\<close> has weight \<open>2 ^ p\<close>, so the symbols are the
  sums of the groups weighted by \<open>[1, 2]\<close> (\<open>[1, 2, 4]\<close> for 64QAM).
\<close>

theorem spins_least_significant_first:
  assumes mw: "(modulation, ws) \<in> {(''16QAM'', [1, 2]), (''64QAM'', [1, 2, 4])}"
    and v: "valid_symbols modulation v"
  shows "\<exists>S. symbols_to_spins v modulation = Inr S
           \<and> shape S = [length ws * (2 * length (elems v))]
           \<and> length (elems S) = length ws * (2 * length (elems v))
           \<and> list_all (\<lambda>x. x = 1 \<or> x = - 1) (elems S)
           \<and> (\<forall>i<length (elems v).
                 weighted_planes ws (length (elems v)) (elems S) i
                   = complex_of_real (Re (elems v ! i))
               \<and> weighted_planes ws (length (elems v)) (elems S) (length (elems v) + i)
                   = complex_of_real (Im (elems v ! i)))"
proof -
  define k where "k = length ws"
  note mk = weights_pow2(1) [OF mw, folded k_def]
  from v have val: "\<And>z. z \<in> set (elems v) \<Longrightarrow> valid_symbol modulation z"
    by (auto simp: valid_symbols_def list_all_iff)
  from symbols_to_spins_qam [OF mk v] obtain S where
    S: "symbols_to_spins v modulation = Inr S" "shape S = [k * (2 * length (elems v))]"
    "elems S = concat (map (\<lambda>p. map (\<lambda>z. of_int (spin_digit k p (Re z))) (elems v)
                                @ map (\<lambda>z. of_int (spin_digit k p (Im z))) (elems v)) [0..<k])"
    by blast
  have len: "length (elems S) = k * (2 * length (elems v))"
    unfolding S(3) by (rule planes_length)
  have pm: "x = 1 \<or> x = - 1" if "x \<in> set (elems S)" for x
  proof -
    from that obtain p z where "p < k" "z \<in> set (elems v)"
      and "x = of_int (spin_digit k p (Re z)) \<or> x = of_int (spin_digit k p (Im z))"
      unfolding S(3) by auto
    with valid_digits(3,4) [OF mk val, of z p] show ?thesis by auto
  qed
  have w: "weighted_planes ws (length (elems v)) s j
         = (\<Sum>p\<leftarrow>[0..<k]. complex_of_int (pow2 p) * s ! (p * (2 * length (elems v)) + j))" for s j
    unfolding weighted_planes_def k_def
    by (intro arg_cong [where f = sum_list] map_cong refl) (simp add: weights_pow2(2) [OF mw])
  have "weighted_planes ws (length (elems v)) (elems S) i = complex_of_real (Re (elems v ! i))
      \<and> weighted_planes ws (length (elems v)) (elems S) (length (elems v) + i)
           = complex_of_real (Im (elems v ! i))" if "i < length (elems v)" for i
    unfolding w S(3) using decode_planes [OF mk val that] by (simp add: add.assoc)
  with S(1,2) len pm show ?thesis
    unfolding k_def [symmetric] by (auto simp: list_all_iff)
qed

theorem spins_least_significant_first_witness:
  "\<exists>S. symbols_to_spins (vec Complex128 [Complex 3 (- 1)]) ''16QAM'' = Inr S
     \<and> length (elems S) = 4
     \<and> weighted_planes [1, 2] 1 (elems S) 0 = 3
     \<and> weighted_planes [1, 2] 1 (elems S) 1 = - 1"
proof -
  have "valid_symbols ''16QAM'' (vec Complex128 [Complex 3 (- 1)])"
    by (simp add: valid_symbols_def vector_of_def valid_16)
  from spins_least_significant_first [of "''16QAM''" "[1, 2]", OF _ this]
  show ?thesis by (auto simp: complex_eq_iff)
qed

text \<open>
  The claim as stated puts the most significant group first.  For the one 16QAM symbol
  \<open>1 + \<i>\<close> the spins are \<open>[- 1, - 1, 1, 1]\<close>: read with the weights \<open>[2, 1]\<close> of that
  order the real part would be \<open>- 1\<close>; with \<open>[1, 2]\<close> it is \<open>1\<close>.
\<close>

theorem spins_most_significant_first_counterexample:
  "symbols_to_spins (vec Complex128 [Complex 1 1]) ''16QAM'' = Inr (vec Int64 [- 1, - 1, 1, 1])
   \<and> weighted_planes [2, 1] 1 [- 1, - 1, 1, 1] 0 \<noteq> complex_of_real (Re (Complex 1 1))
   \<and> weighted_planes [1, 2] 1 [- 1, - 1, 1, 1] 0 = complex_of_real (Re (Complex 1 1))"
  by code_simp

theorem round_trip_witness:
  "\<exists>n s r. len (vec Complex128 [Complex 3 (- 1), Complex (- 1) 1]) = Inr n
     \<and> symbols_to_spins (vec Complex128 [Complex 3 (- 1), Complex (- 1) 1]) ''16QAM'' = Inr s
     \<and> spins_to_symbols s (Some ''16QAM'') (Some n) = Inr r
     \<and> elems r = [Complex 3 (- 1), Complex (- 1) 1]
     \<and> array_equal r (vec Complex128 [Complex 3 (- 1), Complex (- 1) 1])"
proof -
  have "valid_symbols ''16QAM'' (vec Complex128 [Complex 3 (- 1), Complex (- 1) 1])"
    by (simp add: valid_symbols_def vector_of_def valid_16)
  from round_trip [of "''16QAM''", OF _ this] show ?thesis by (auto simp: len_def)
qed

section \<open>Properties of the quadratic form\<close>


lemma as_mat:
  assumes "shape a = [r, c]" "length (elems a) = r * c"
  shows "a = mat (dtype a) r c (at2 a)"
proof -
  have "elems a = map (\<lambda>k. at2 a (k div c) (k mod c)) [0..<r * c]"
    using assms by (intro nth_equalityI) (simp_all add: at2_def)
  with assms(1) show ?thesis by (simp add: mat_def)
qed

lemma mat_map:
  "mat dt r c f\<lparr>dtype := dt', elems := map g (elems (mat dt r c f))\<rparr>
     = mat dt' r c (\<lambda>i j. g (f i j))"
  by (simp add: mat_def)

lemma real_part_mat:
  "real_part (mat dt r c f) = mat (real_dtype dt) r c (\<lambda>i j. complex_of_real (Re (f i j)))"
  by (simp add: real_part_def mat_def)

lemma imag_part_mat:
  "imag_part (mat dt r c f) = mat (real_dtype dt) r c (\<lambda>i j. complex_of_real (Im (f i j)))"
  by (simp add: imag_part_def mat_def)

lemma conj_mat: "conj (mat dt r c f) = mat dt r c (\<lambda>i j. cnj (f i j))"
  by (simp add: conj_def mat_def)

lemma scale_mat: "scale d s (mat dt r c f) = mat (promote d dt) r c (\<lambda>i j. s * f i j)"
  by (simp add: scale_def mat_def)

lemma transpose_mat: "transpose_T (mat dt r c f) = mat dt c r (\<lambda>i j. f j i)"
  by (simp add: transpose_T_def) (intro mat_cong, simp)

lemma matmul_mat:
  "matmul (mat d1 r m f) (mat d2 m c g)
     = Inr (mat (promote d1 d2) r c (\<lambda>i j. \<Sum>k\<leftarrow>[0..<m]. f i k * g k j))"
proof -
  have "(\<Sum>k\<leftarrow>[0..<m]. at2 (mat d1 r m f) i k * at2 (mat d2 m c g) k j)
      = (\<Sum>k\<leftarrow>[0..<m]. f i k * g k j)" if "i < r" "j < c" for i j
    using that by (intro arg_cong [where f = sum_list] map_cong refl) simp
  then show ?thesis
    by (simp add: matmul_def) (intro mat_cong, simp)
qed

lemma add_mat:
  "add (mat d1 r c f) (mat d2 r c g) = Inr (mat (promote d1 d2) r c (\<lambda>i j. f i j + g i j))"
  by (simp add: add_def mat_def zip_map_map zip_same_conv_map)

lemma concatenate0_mat:
  "concatenate0 (mat d1 r1 c f) (mat d2 r2 c g)
     = Inr (mat (promote d1 d2) (r1 + r2) c (\<lambda>i j. if i < r1 then f i j else g (i - r1) j))"
proof -
  have "map (\<lambda>k. f (k div c) (k mod c)) [0..<r1 * c] @ map (\<lambda>k. g (k div c) (k mod c)) [0..<r2 * c]
      = map (\<lambda>k. if k div c < r1 then f (k div c) (k mod c) else g (k div c - r1) (k mod c))
          [0..<(r1 + r2) * c]" (is "?l = ?r")
  proof (intro nth_equalityI)
    show "length ?l = length ?r" by (simp add: add_mult_distrib)
    fix k assume "k < length ?l"
    then have k: "k < r1 * c + r2 * c" by simp
    show "?l ! k = ?r ! k"
    proof (cases "k < r1 * c")
      case True
      then have "k div c < r1" by (simp add: less_mult_imp_div_less)
      with True k show ?thesis by (simp add: nth_append add_mult_distrib)
    next
      case False
      then obtain k' where k': "k = r1 * c + k'"
        using le_Suc_ex [of "r1 * c" k] by auto
      from k have c: "0 < c" by (cases c) auto
      from c have "k div c = r1 + k' div c" "k mod c = k' mod c" "\<not> k div c < r1"
        unfolding k' by simp_all
      then show ?thesis using False k by (simp add: nth_append add_mult_distrib k')
    qed
  qed
  then show ?thesis by (simp add: concatenate0_def mat_def)
qed

lemma concatenate1_mat:
  "concatenate1 (mat d1 r c1 f) (mat d2 r c2 g)
     = Inr (mat (promote d1 d2) r (c1 + c2) (\<lambda>i j. if j < c1 then f i j else g i (j - c1)))"
  by (simp add: concatenate1_def) (intro mat_cong, auto)

lemma kron_mat:
  "kron (mat d1 ra ca f) (mat d2 rb cb g)
     = mat (promote d1 d2) (ra * rb) (ca * cb)
         (\<lambda>i j. f (i div rb) (j div cb) * g (i mod rb) (j mod cb))"
proof -
  have "at2 (mat d1 ra ca f) (i div rb) (j div cb) * at2 (mat d2 rb cb g) (i mod rb) (j mod cb)
      = f (i div rb) (j div cb) * g (i mod rb) (j mod cb)" if "i < ra * rb" "j < ca * cb" for i j
  proof -
    from that have "0 < rb" "0 < cb" by (cases rb; cases cb; auto)+
    moreover from that have "i div rb < ra" "j div cb < ca"
      by (simp_all add: less_mult_imp_div_less)
    ultimately show ?thesis by simp
  qed
  then show ?thesis by (simp add: kron_def) (intro mat_cong, simp)
qed


lemma single_column_iff:
  "length sh \<noteq> 2 \<or> sh ! 1 \<noteq> (1::nat) \<longleftrightarrow> \<not> (\<exists>n. sh = [n, 1])"
proof (cases sh)
  case Nil
  then show ?thesis by simp
next
  case (Cons a as)
  then show ?thesis by (cases as; cases "tl as") auto
qed

lemma rows_iff:
  "length sh \<noteq> 2 \<or> sh ! 0 \<noteq> (n::nat) \<longleftrightarrow> \<not> (\<exists>m. sh = [n, m])"
proof (cases sh)
  case Nil
  then show ?thesis by simp
next
  case (Cons a as)
  then show ?thesis by (cases as; cases "tl as") auto
qed

lemma norm_sum:
  "(\<Sum>k\<leftarrow>xs. complex_of_real (Im (f k)) * complex_of_real (Im (f k)))
     + (\<Sum>k\<leftarrow>xs. complex_of_real (Re (f k)) * complex_of_real (Re (f k)))
   = (\<Sum>k\<leftarrow>xs. cnj (f k) * f k)"
  by (induction xs) (simp_all add: complex_eq_iff algebra_simps)

lemma quadratic_form_mat:
  "quadratic_form (mat dy n 1 f) (mat dF n m g) =
     Inr (mat (real_dtype dy) 1 1 (\<lambda>i j. \<Sum>k\<leftarrow>[0..<n]. cnj (f k 0) * f k 0),
          mat (promote dF dy) m 1 (\<lambda>i j. - 2 * (\<Sum>k\<leftarrow>[0..<n]. cnj (g k i) * f k 0)),
          mat dF m m (\<lambda>i j. \<Sum>k\<leftarrow>[0..<n]. cnj (g k i) * g k j))"
  by (simp add: quadratic_form_def real_part_mat imag_part_mat transpose_mat conj_mat
      matmul_mat add_mat scale_mat)
    (intro conjI mat_cong; simp add: norm_sum)



lemma sum_cnj_real: "Im (\<Sum>k\<leftarrow>xs. cnj (f k) * f k) = 0"
  by (induction xs) (simp_all add: algebra_simps)

text \<open>
  Claim C4.  For a column \<open>y\<close> of \<open>n\<close> entries and a matrix \<open>F\<close> of \<open>n\<close> rows the function
  returns the offset \<open>y\<^sup>H y = \<Sum> cnj y\<^sub>k * y\<^sub>k\<close> (as a matrix of one row and one column,
  and a real number), the column \<open>h = - 2 F\<^sup>H y\<close> and the matrix \<open>J = F\<^sup>H F\<close>; for an
  all-zero \<open>y\<close> the offset and \<open>h\<close> are zero and \<open>J\<close> is still \<open>F\<^sup>H F\<close>.  It raises
  \<^verbatim>\<open>ValueError\<close> when \<open>y\<close> is not a single column, and when \<open>F\<close> is not a matrix with as
  many rows as \<open>y\<close>.
\<close>

theorem quadratic_form_correct:
  "(shape y = [n, 1] \<and> shape F = [n, m] \<and> wf_array y \<and> wf_array F \<longrightarrow>
      quadratic_form y F =
        Inr (mat (real_dtype (dtype y)) 1 1 (\<lambda>i j. \<Sum>k\<leftarrow>[0..<n]. cnj (at2 y k 0) * at2 y k 0),
             mat (promote (dtype F) (dtype y)) m 1
               (\<lambda>i j. - 2 * (\<Sum>k\<leftarrow>[0..<n]. cnj (at2 F k i) * at2 y k 0)),
             mat (dtype F) m m (\<lambda>i j. \<Sum>k\<leftarrow>[0..<n]. cnj (at2 F k i) * at2 F k j))
      \<and> Im (\<Sum>k\<leftarrow>[0..<n]. cnj (at2 y k 0) * at2 y k 0) = 0
      \<and> ((\<forall>k<n. at2 y k 0 = 0) \<longrightarrow>
            quadratic_form y F =
              Inr (mat (real_dtype (dtype y)) 1 1 (\<lambda>i j. 0),
                   mat (promote (dtype F) (dtype y)) m 1 (\<lambda>i j. 0),
                   mat (dtype F) m m (\<lambda>i j. \<Sum>k\<leftarrow>[0..<n]. cnj (at2 F k i) * at2 F k j))))
   \<and> (\<not> (\<exists>n. shape y = [n, 1]) \<longrightarrow>
        quadratic_form y F = Inl (ValueError ''y should have shape [n, 1] for some n''))
   \<and> ((\<exists>n. shape y = [n, 1] \<and> \<not> (\<exists>m. shape F = [n, m])) \<longrightarrow>
        quadratic_form y F = Inl (ValueError ''F should have shape [n, m] for some m, nand n should equal y.shape[1]''))"
proof (intro conjI impI)
  assume a: "shape y = [n, 1] \<and> shape F = [n, m] \<and> wf_array y \<and> wf_array F"
  then have y: "y = mat (dtype y) n 1 (at2 y)" and F: "F = mat (dtype F) n m (at2 F)"
    by (auto intro!: as_mat simp: wf_array_def)
  show q: "quadratic_form y F =
        Inr (mat (real_dtype (dtype y)) 1 1 (\<lambda>i j. \<Sum>k\<leftarrow>[0..<n]. cnj (at2 y k 0) * at2 y k 0),
             mat (promote (dtype F) (dtype y)) m 1
               (\<lambda>i j. - 2 * (\<Sum>k\<leftarrow>[0..<n]. cnj (at2 F k i) * at2 y k 0)),
             mat (dtype F) m m (\<lambda>i j. \<Sum>k\<leftarrow>[0..<n]. cnj (at2 F k i) * at2 F k j))"
    by (subst y, subst F) (rule quadratic_form_mat)
  show "Im (\<Sum>k\<leftarrow>[0..<n]. cnj (at2 y k 0) * at2 y k 0) = 0"
    by (rule sum_cnj_real)
  assume z: "\<forall>k<n. at2 y k 0 = 0"
  have "(\<Sum>k\<leftarrow>[0..<n]. g k * at2 y k 0) = 0" for g
  proof -
    have "(\<Sum>k\<leftarrow>[0..<n]. g k * at2 y k 0) = (\<Sum>k\<leftarrow>[0..<n]. 0)"
      by (intro arg_cong [where f = sum_list] map_cong refl) (use z in auto)
    also have "\<dots> = 0" by (induction n) simp_all
    finally show ?thesis .
  qed
  then show "quadratic_form y F =
              Inr (mat (real_dtype (dtype y)) 1 1 (\<lambda>i j. 0),
                   mat (promote (dtype F) (dtype y)) m 1 (\<lambda>i j. 0),
                   mat (dtype F) m m (\<lambda>i j. \<Sum>k\<leftarrow>[0..<n]. cnj (at2 F k i) * at2 F k j))"
    unfolding q by simp
next
  assume "\<not> (\<exists>n. shape y = [n, 1])"
  then have "length (shape y) \<noteq> 2 \<or> shape y ! 1 \<noteq> 1"
    using single_column_iff [of "shape y"] by blast
  then show "quadratic_form y F = Inl (ValueError ''y should have shape [n, 1] for some n'')"
    unfolding quadratic_form_def by (simp only: if_True)
next
  assume "\<exists>n. shape y = [n, 1] \<and> \<not> (\<exists>m. shape F = [n, m])"
  then obtain n where n: "shape y = [n, 1]" "\<not> (\<exists>m. shape F = [n, m])" by blast
  from n(2) have "length (shape F) \<noteq> 2 \<or> shape F ! 0 \<noteq> n"
    using rows_iff [of "shape F" n] by blast
  with n(1) show "quadratic_form y F = Inl (ValueError ''F should have shape [n, m] for some m, nand n should equal y.shape[1]'')"
    unfolding quadratic_form_def by auto
qed

theorem quadratic_form_correct_witness:
  "quadratic_form (mat Complex128 2 1 (\<lambda>i j. if i = 0 then Complex 1 2 else 3))
       (mat Complex128 2 2 (\<lambda>i j. if i = j then \<i> else 1))
     = Inr (mat Float64 1 1 (\<lambda>i j. 14),
            mat Complex128 2 1 (\<lambda>i j. if i = 0 then Complex (- 10) 2 else Complex (- 2) 2),
            mat Complex128 2 2 (\<lambda>i j. if i = j then 2 else 0))
   \<and> quadratic_form (mat Complex128 2 1 (\<lambda>i j. 0)) (mat Complex128 2 2 (\<lambda>i j. if i = j then \<i> else 1))
     = Inr (mat Float64 1 1 (\<lambda>i j. 0), mat Complex128 2 1 (\<lambda>i j. 0),
            mat Complex128 2 2 (\<lambda>i j. if i = j then 2 else 0))
   \<and> quadratic_form (vec Complex128 [1, 2]) (mat Complex128 2 2 (\<lambda>i j. 1))
     = Inl (ValueError ''y should have shape [n, 1] for some n'')
   \<and> quadratic_form (mat Complex128 2 1 (\<lambda>i j. 1)) (mat Complex128 3 2 (\<lambda>i j. 1))
     = Inl (ValueError ''F should have shape [n, m] for some m, nand n should equal y.shape[1]'')"
  using quadratic_form_correct [of "mat Complex128 2 1 (\<lambda>i j. if i = 0 then Complex 1 2 else 3)" 2
      "mat Complex128 2 2 (\<lambda>i j. if i = j then \<i> else 1)" 2]
    quadratic_form_correct [of "mat Complex128 2 1 (\<lambda>i j. 0)" 2
      "mat Complex128 2 2 (\<lambda>i j. if i = j then \<i> else 1)" 2]
    quadratic_form_correct [of "vec Complex128 [1, 2]" 0 "mat Complex128 2 2 (\<lambda>i j. 1)" 0]
    quadratic_form_correct [of "mat Complex128 2 1 (\<lambda>i j. 1)" 0 "mat Complex128 3 2 (\<lambda>i j. 1)" 0]
  by (simp add: wf_array_def real_dtype_def mat_def at2_def upt_rec complex_eq_iff)


lemma real_part_real:
  "dtype a \<noteq> Complex128 \<Longrightarrow> real_valued a \<Longrightarrow> real_part a = a"
proof -
  assume a: "dtype a \<noteq> Complex128" "real_valued a"
  then have "map (\<lambda>z. complex_of_real (Re z)) (elems a) = elems a"
    by (intro map_idI) (auto simp: real_valued_def list_all_iff complex_eq_iff)
  with a(1) show ?thesis by (simp add: real_part_def real_dtype_def)
qed

lemma real_dtype_promote [simp]: "promote (real_dtype d) (real_dtype d) = real_dtype d"
  by simp

lemma real_quadratic_form_mat:
  assumes "modulation \<noteq> Some ''BPSK''" "dh = Complex128 \<or> dJ = Complex128"
  shows "real_quadratic_form (mat dh n 1 f) (mat dJ n n g) modulation =
     Inr (mat (real_dtype dh) (n + n) 1
            (\<lambda>i j. if i < n then complex_of_real (Re (f i j)) else complex_of_real (Im (f (i - n) j))),
          mat (real_dtype dJ) (n + n) (n + n)
            (\<lambda>i j. if j < n then (if i < n then complex_of_real (Re (g i j))
                                  else complex_of_real (Im (g (i - n) j)))
                   else (if i < n then complex_of_real (Im (g (j - n) i))
                         else complex_of_real (Re (g (i - n) (j - n))))))"
  using assms
  by (simp add: real_quadratic_form_def real_part_mat imag_part_mat transpose_mat
      concatenate0_mat concatenate1_mat)

lemma blocks_mat:
  "blocks n (mat d1 n n a) (mat d2 n n b) (mat d3 n n c) (mat d4 n n d) =
     mat (promote (promote d1 d2) (promote d3 d4)) (2 * n) (2 * n)
       (\<lambda>i j. if i < n then (if j < n then a i j else b i (j - n))
              else (if j < n then c (i - n) j else d (i - n) (j - n)))"
  unfolding blocks_def by (simp, intro mat_cong) auto


text \<open>
  Claim C5, as the code has it.  For \<open>h\<close> of \<open>n\<close> rows and \<open>J\<close> of \<open>n\<close> rows and columns,
  one of them complex, and a modulation other than BPSK, the function returns
  \<open>hR = [Re h; Im h]\<close> and the block matrix \<open>JR = [[Re J, (Im J)\<^sup>T], [Im J, Re J]]\<close>:
  the transposed imaginary part is the upper right block.  For BPSK, or when neither
  array is complex, it returns the real parts, which are \<open>h\<close> and \<open>J\<close> themselves when
  these hold real numbers.
\<close>

theorem real_projection_blocks:
  "(shape h = [n, 1] \<and> shape J = [n, n] \<and> wf_array h \<and> wf_array J
      \<and> modulation \<noteq> Some ''BPSK'' \<and> (dtype h = Complex128 \<or> dtype J = Complex128) \<longrightarrow>
      (\<exists>hR JR. real_quadratic_form h J modulation = Inr (hR, JR)
         \<and> shape hR = [2 * n, 1]
         \<and> (\<forall>i<n. at2 hR i 0 = complex_of_real (Re (at2 h i 0))
                 \<and> at2 hR (n + i) 0 = complex_of_real (Im (at2 h i 0)))
         \<and> JR = blocks n (real_part J) (transpose_T (imag_part J)) (imag_part J) (real_part J)))
   \<and> (modulation = Some ''BPSK'' \<or> (dtype h \<noteq> Complex128 \<and> dtype J \<noteq> Complex128) \<longrightarrow>
        real_quadratic_form h J modulation = Inr (real_part h, real_part J))
   \<and> (dtype h \<noteq> Complex128 \<and> dtype J \<noteq> Complex128 \<and> real_valued h \<and> real_valued J \<longrightarrow>
        real_quadratic_form h J modulation = Inr (h, J))"
proof (intro conjI impI)
  assume a: "shape h = [n, 1] \<and> shape J = [n, n] \<and> wf_array h \<and> wf_array J
      \<and> modulation \<noteq> Some ''BPSK'' \<and> (dtype h = Complex128 \<or> dtype J = Complex128)"
  then have h: "h = mat (dtype h) n 1 (at2 h)" and J: "J = mat (dtype J) n n (at2 J)"
    by (auto intro!: as_mat simp: wf_array_def)
  define f where "f = at2 h"
  define g where "g = at2 J"
  have b: "blocks n (real_part J) (transpose_T (imag_part J)) (imag_part J) (real_part J)
      = mat (real_dtype (dtype J)) (n + n) (n + n)
            (\<lambda>i j. if j < n then (if i < n then complex_of_real (Re (g i j))
                                  else complex_of_real (Im (g (i - n) j)))
                   else (if i < n then complex_of_real (Im (g (j - n) i))
                         else complex_of_real (Re (g (i - n) (j - n)))))"
    by (subst (1 2 3 4) J)
      (simp add: real_part_mat imag_part_mat transpose_mat blocks_mat mult_2,
        intro mat_cong, auto simp: g_def)
  have "real_quadratic_form h J modulation =
     Inr (mat (real_dtype (dtype h)) (n + n) 1
            (\<lambda>i j. if i < n then complex_of_real (Re (f i j)) else complex_of_real (Im (f (i - n) j))),
          blocks n (real_part J) (transpose_T (imag_part J)) (imag_part J) (real_part J))"
    unfolding b f_def g_def using a
    by (subst h, subst J) (intro real_quadratic_form_mat, auto)
  then show "\<exists>hR JR. real_quadratic_form h J modulation = Inr (hR, JR)
         \<and> shape hR = [2 * n, 1]
         \<and> (\<forall>i<n. at2 hR i 0 = complex_of_real (Re (at2 h i 0))
                 \<and> at2 hR (n + i) 0 = complex_of_real (Im (at2 h i 0)))
         \<and> JR = blocks n (real_part J) (transpose_T (imag_part J)) (imag_part J) (real_part J)"
    by (simp add: f_def mult_2)
next
  assume "modulation = Some ''BPSK'' \<or> (dtype h \<noteq> Complex128 \<and> dtype J \<noteq> Complex128)"
  then show "real_quadratic_form h J modulation = Inr (real_part h, real_part J)"
    by (auto simp: real_quadratic_form_def)
next
  assume "dtype h \<noteq> Complex128 \<and> dtype J \<noteq> Complex128 \<and> real_valued h \<and> real_valued J"
  then show "real_quadratic_form h J modulation = Inr (h, J)"
    by (simp add: real_quadratic_form_def real_part_real)
qed

theorem real_projection_blocks_witness:
  "real_quadratic_form (matrix Complex128 [[Complex 1 2], [Complex 3 4]])
       (matrix Complex128 [[Complex 5 0, Complex 6 7], [Complex 6 (- 7), Complex 8 0]])
       (Some ''QPSK'')
     = Inr (matrix Float64 [[1], [3], [2], [4]],
            matrix Float64 [[5, 6, 0, - 7], [6, 8, 7, 0], [0, 7, 5, 6], [- 7, 0, 6, 8]])
   \<and> real_quadratic_form (matrix Complex128 [[Complex 1 2], [Complex 3 4]])
       (matrix Complex128 [[Complex 5 0, Complex 6 7], [Complex 6 (- 7), Complex 8 0]])
       (Some ''BPSK'')
     = Inr (matrix Float64 [[1], [3]], matrix Float64 [[5, 6], [6, 8]])
   \<and> real_quadratic_form (matrix Float64 [[1], [3]]) (matrix Float64 [[5, 6], [6, 8]]) None
     = Inr (matrix Float64 [[1], [3]], matrix Float64 [[5, 6], [6, 8]])"
proof -
  let ?h = "matrix Complex128 [[Complex 1 2], [Complex 3 4]]"
  let ?J = "matrix Complex128 [[Complex 5 0, Complex 6 7], [Complex 6 (- 7), Complex 8 0]]"
  let ?hr = "matrix Float64 [[1], [3]]"
  let ?Jr = "matrix Float64 [[5, 6], [6, 8]]"
  have 1: "real_quadratic_form ?h ?J (Some ''QPSK'')
     = Inr (matrix Float64 [[1], [3], [2], [4]],
            matrix Float64 [[5, 6, 0, - 7], [6, 8, 7, 0], [0, 7, 5, 6], [- 7, 0, 6, 8]])"
    by code_simp
  have 2: "real_part ?h = ?hr" "real_part ?J = ?Jr" by code_simp+
  have 3: "real_valued ?hr" "real_valued ?Jr" by code_simp+
  from real_projection_blocks [of ?h 2 ?J "Some ''BPSK''"] 2
  have 4: "real_quadratic_form ?h ?J (Some ''BPSK'') = Inr (?hr, ?Jr)"
    by simp
  have "dtype ?hr \<noteq> Complex128 \<and> dtype ?Jr \<noteq> Complex128 \<and> real_valued ?hr \<and> real_valued ?Jr"
    using 3 by (simp add: matrix_def)
  from real_projection_blocks [of ?hr 2 ?Jr None, THEN conjunct2, THEN conjunct2, THEN mp, OF this]
  have 5: "real_quadratic_form ?hr ?Jr None = Inr (?hr, ?Jr)" .
  from 1 4 5 show ?thesis by simp
qed

text \<open>
  The claim as stated has \<open>Im J\<close> in the upper right block and its transpose in the
  lower left one.  For \<open>J = [[0, \<i>], [0, 0]]\<close> the code's matrix has its entries 1 at
  \<open>(1, 2)\<close> and \<open>(2, 1)\<close>, the claimed one at \<open>(0, 3)\<close> and \<open>(3, 0)\<close>.
\<close>

theorem real_projection_transposed_counterexample:
  "real_quadratic_form (matrix Complex128 [[0], [0]]) (matrix Complex128 [[0, \<i>], [0, 0]])
       (Some ''QPSK'')
     = Inr (matrix Float64 [[0], [0], [0], [0]],
            matrix Float64 [[0, 0, 0, 0], [0, 0, 1, 0], [0, 1, 0, 0], [0, 0, 0, 0]])
   \<and> blocks 2 (real_part (matrix Complex128 [[0, \<i>], [0, 0]]))
        (imag_part (matrix Complex128 [[0, \<i>], [0, 0]]))
        (transpose_T (imag_part (matrix Complex128 [[0, \<i>], [0, 0]])))
        (real_part (matrix Complex128 [[0, \<i>], [0, 0]]))
     = matrix Float64 [[0, 0, 0, 1], [0, 0, 0, 0], [0, 0, 0, 0], [1, 0, 0, 0]]
   \<and> matrix Float64 [[0, 0, 0, 0], [0, 0, 1, 0], [0, 1, 0, 0], [0, 0, 0, 0]]
     \<noteq> matrix Float64 [[0, 0, 0, 1], [0, 0, 0, 0], [0, 0, 0, 0], [1, 0, 0, 0]]"
  by code_simp


lemma amps_column:
  "newaxis_col (two_power (arange 2)) = column [1, 2]"
  "newaxis_col (two_power (arange 3)) = column [1, 2, 4]"
  by (simp_all add: newaxis_col_def two_power_def arange_def column_def upt_rec vec_def)

lemma amps_outer:
  "kron (column [1, 2]) (newaxis_row (two_power (arange 2))) = outer [1, 2] [1, 2]"
  "kron (column [1, 2, 4]) (newaxis_row (two_power (arange 3))) = outer [1, 2, 4] [1, 2, 4]"
  by code_simp+

lemma column_mat: "column xs = mat Int64 (length xs) 1 (\<lambda>i j. of_int (xs ! i))"
  by (simp add: column_def mat_def) (intro nth_equalityI, simp_all)


text \<open>
  Claim C6.  With the weights \<open>[1, 2]\<close> for 16QAM and \<open>[1, 2, 4]\<close> for 64QAM the function
  returns \<open>h' = kron(weights, h)\<close> (the weights as a column) and
  \<open>J' = kron(outer(weights, weights), J)\<close>; for \<open>h\<close> of \<open>n\<close> rows and \<open>J\<close> of \<open>n\<close> rows
  and columns, entry \<open>p * n + i\<close> of \<open>h'\<close> is \<open>weights\<^sub>p * h\<^sub>i\<close> and entry
  \<open>(p * n + i, q * n + j)\<close> of \<open>J'\<close> is \<open>weights\<^sub>p * weights\<^sub>q * J\<^sub>i\<^sub>j\<close>; for 16QAM
  \<open>J'\<close> has \<open>2 * n\<close> rows and columns and its upper left block is \<open>J\<close>.  BPSK and QPSK
  return \<open>h\<close> and \<open>J\<close> unchanged.
\<close>

theorem amplitude_expand_kron:
  "((modulation, amps) \<in> {(''16QAM'', [1, 2]), (''64QAM'', [1, 2, 4])} \<longrightarrow>
      amplitude_modulated_quadratic_form h J modulation
        = Inr (kron (column amps) h, kron (outer amps amps) J))
   \<and> (shape h = [n, 1] \<and> shape J = [n, n] \<and> wf_array h \<and> wf_array J \<longrightarrow>
        shape (kron (column amps) h) = [length amps * n, 1]
        \<and> shape (kron (outer amps amps) J) = [length amps * n, length amps * n]
        \<and> (\<forall>p<length amps. \<forall>i<n.
              at2 (kron (column amps) h) (p * n + i) 0 = of_int (amps ! p) * at2 h i 0)
        \<and> (\<forall>p<length amps. \<forall>q<length amps. \<forall>i<n. \<forall>j<n.
              at2 (kron (outer amps amps) J) (p * n + i) (q * n + j)
                = of_int (amps ! p * amps ! q) * at2 J i j))
   \<and> (shape J = [n, n] \<and> wf_array J \<longrightarrow>
        shape (kron (outer [1, 2] [1, 2]) J) = [2 * n, 2 * n]
        \<and> (\<forall>i<n. \<forall>j<n. at2 (kron (outer [1, 2] [1, 2]) J) i j = at2 J i j))
   \<and> (modulation = ''BPSK'' \<or> modulation = ''QPSK'' \<longrightarrow>
        amplitude_modulated_quadratic_form h J modulation = Inr (h, J))"
proof (intro conjI impI)
  assume "(modulation, amps) \<in> {(''16QAM'', [1, 2]), (''64QAM'', [1, 2, 4])}"
  then show "amplitude_modulated_quadratic_form h J modulation
        = Inr (kron (column amps) h, kron (outer amps amps) J)"
    by (auto simp: amplitude_modulated_quadratic_form_def amps_column amps_outer)
next
  assume a: "shape h = [n, 1] \<and> shape J = [n, n] \<and> wf_array h \<and> wf_array J"
  then have h: "h = mat (dtype h) n 1 (at2 h)" and J: "J = mat (dtype J) n n (at2 J)"
    by (auto intro!: as_mat simp: wf_array_def)
  have kh: "kron (column amps) h = mat (dtype h) (length amps * n) 1
              (\<lambda>i j. of_int (amps ! (i div n)) * at2 h (i mod n) 0)"
    by (subst h) (simp add: column_mat kron_mat)
  have kJ: "kron (outer amps amps) J = mat (dtype J) (length amps * n) (length amps * n)
              (\<lambda>i j. of_int (amps ! (i div n) * amps ! (j div n)) * at2 J (i mod n) (j mod n))"
    by (subst J) (simp add: outer_def kron_mat)
  show "shape (kron (column amps) h) = [length amps * n, 1]" by (simp add: kh)
  show "shape (kron (outer amps amps) J) = [length amps * n, length amps * n]" by (simp add: kJ)
  have idx: "p * n + i < length amps * n" if "p < length amps" "i < n" for p i
    using that by (rule index_in_range)
  show "\<forall>p<length amps. \<forall>i<n.
              at2 (kron (column amps) h) (p * n + i) 0 = of_int (amps ! p) * at2 h i 0"
    by (simp add: kh idx)
  show "\<forall>p<length amps. \<forall>q<length amps. \<forall>i<n. \<forall>j<n.
              at2 (kron (outer amps amps) J) (p * n + i) (q * n + j)
                = of_int (amps ! p * amps ! q) * at2 J i j"
    by (simp add: kJ idx)
next
  assume a: "shape J = [n, n] \<and> wf_array J"
  then have J: "J = mat (dtype J) n n (at2 J)"
    by (auto intro!: as_mat simp: wf_array_def)
  have kJ: "kron (outer [1, 2] [1, 2]) J = mat (dtype J) (2 * n) (2 * n)
              (\<lambda>i j. of_int ([1, 2] ! (i div n) * [1, 2] ! (j div n)) * at2 J (i mod n) (j mod n))"
    by (subst J) (simp add: outer_def kron_mat mult_2)
  show "shape (kron (outer [1, 2] [1, 2]) J) = [2 * n, 2 * n]" by (simp add: kJ)
  show "\<forall>i<n. \<forall>j<n. at2 (kron (outer [1, 2] [1, 2]) J) i j = at2 J i j"
    by (simp add: kJ)
next
  assume "modulation = ''BPSK'' \<or> modulation = ''QPSK''"
  then show "amplitude_modulated_quadratic_form h J modulation = Inr (h, J)"
    by (auto simp: amplitude_modulated_quadratic_form_def)
qed

theorem amplitude_expand_kron_witness:
  "amplitude_modulated_quadratic_form (matrix Float64 [[5], [6]]) (matrix Float64 [[1, 2], [3, 4]]) ''16QAM''
     = Inr (matrix Float64 [[5], [6], [10], [12]],
            matrix Float64 [[1, 2, 2, 4], [3, 4, 6, 8], [2, 4, 4, 8], [6, 8, 12, 16]])
   \<and> amplitude_modulated_quadratic_form (matrix Float64 [[5], [6]]) (matrix Float64 [[1, 2], [3, 4]]) ''QPSK''
     = Inr (matrix Float64 [[5], [6]], matrix Float64 [[1, 2], [3, 4]])
   \<and> shape (kron (outer [1, 2] [1, 2]) (matrix Float64 [[1, 2], [3, 4]])) = [4, 4]"
proof -
  let ?h = "matrix Float64 [[5], [6]]"
  let ?J = "matrix Float64 [[1, 2], [3, 4]]"
  have k: "kron (column [1, 2]) ?h = matrix Float64 [[5], [6], [10], [12]]"
    "kron (outer [1, 2] [1, 2]) ?J
       = matrix Float64 [[1, 2, 2, 4], [3, 4, 6, 8], [2, 4, 4, 8], [6, 8, 12, 16]]"
    by code_simp+
  have w: "shape ?J = [2, 2] \<and> wf_array ?J" by code_simp
  from amplitude_expand_kron [of "''16QAM''" "[1, 2]" ?h ?J 2] k
  have 1: "amplitude_modulated_quadratic_form ?h ?J ''16QAM''
     = Inr (matrix Float64 [[5], [6], [10], [12]],
            matrix Float64 [[1, 2, 2, 4], [3, 4, 6, 8], [2, 4, 4, 8], [6, 8, 12, 16]])"
    by simp
  from amplitude_expand_kron [of "''QPSK''" "[]" ?h ?J 2]
  have 2: "amplitude_modulated_quadratic_form ?h ?J ''QPSK'' = Inr (?h, ?J)"
    by simp
  from amplitude_expand_kron [of "''16QAM''" "[1, 2]" ?h ?J 2] w
  have 3: "shape (kron (outer [1, 2] [1, 2]) ?J) = [4, 4]"
    by simp
  from 1 2 3 show ?thesis by simp
qed

section \<open>Properties of the composers\<close>


lemma length_draw_list: "length (fst (draw_list d n g)) = n"
proof (induction n arbitrary: g)
  case 0
  then show ?case by simp
next
  case (Suc n)
  obtain x g1 where d: "d g = (x, g1)" by (cases "d g")
  obtain xs g2 where r: "draw_list d n g1 = (xs, g2)" by (cases "draw_list d n g1")
  from Suc [of g1] r have "length xs = n" by simp
  with d r show ?case by simp
qed

lemma is_matrix_mat [simp]: "is_matrix r c (mat dt r c f)"
  by (simp add: is_matrix_def)

lemma is_matrix_as_mat: "is_matrix r c a \<Longrightarrow> a = mat (dtype a) r c (at2 a)"
  by (simp add: is_matrix_def as_mat)

lemma normal_array_matrix: "normal_array ops r c g = (a, g') \<Longrightarrow> is_matrix r c a"
  using length_draw_list [of "rs_normal ops" "r * c" g]
  by (auto simp: normal_array_def is_matrix_def split: prod.splits)

lemma randint_array_matrix: "randint_array ops n r c g = (a, g') \<Longrightarrow> is_matrix r c a"
  using length_draw_list [of "rs_randint ops n" "r * c" g]
  by (auto simp: randint_array_def is_matrix_def split: prod.splits)

lemma choice_array_matrix: "choice_array ops amps r c g = (a, g') \<Longrightarrow> is_matrix r c a"
  using length_draw_list [of "rs_randint ops (length (elems amps))" "r * c" g]
  by (auto simp: choice_array_def is_matrix_def split: prod.splits)

lemma is_matrix_scale: "is_matrix r c a \<Longrightarrow> is_matrix r c (scale dt s a)"
  by (simp add: is_matrix_def scale_def)

lemma is_matrix_one_minus_twice: "is_matrix r c a \<Longrightarrow> is_matrix r c (one_minus_twice a)"
  by (simp add: is_matrix_def one_minus_twice_def)

lemma is_matrix_add:
  "is_matrix r c a \<Longrightarrow> is_matrix r c b \<Longrightarrow> \<exists>s. add a b = Inr s \<and> is_matrix r c s"
  by (simp add: is_matrix_def add_def)

lemma is_matrix_matmul:
  "is_matrix r m a \<Longrightarrow> is_matrix m c b \<Longrightarrow> \<exists>p. matmul a b = Inr p \<and> is_matrix r c p"
  by (simp add: is_matrix_def matmul_def)

lemma create_channel_matrix:
  assumes "valid_distribution fd"
  shows "\<exists>F cp g1. create_channel ops nr nt fd (Some g) w = Inr ((F, cp, g1), w)
           \<and> is_matrix nr nt F"
proof -
  obtain a b where ab: "(case fd of None \<Rightarrow> (''Normal'', ''Complex'') | Some d \<Rightarrow> d) = (a, b)"
    by (cases "case fd of None \<Rightarrow> (''Normal'', ''Complex'') | Some d \<Rightarrow> d") auto
  with assms have a: "a = ''Normal'' \<or> a = ''Binary''"
    by (auto simp: valid_distribution_def split: option.splits)
  obtain Fr g1 where n1: "normal_array ops nr nt g = (Fr, g1)" by (cases "normal_array ops nr nt g")
  obtain Fi g2 where n2: "normal_array ops nr nt g1 = (Fi, g2)" by (cases "normal_array ops nr nt g1")
  obtain Br h1 where b1: "randint_array ops 2 nr nt g = (Br, h1)" by (cases "randint_array ops 2 nr nt g")
  obtain Bi h2 where b2: "randint_array ops 2 nr nt h1 = (Bi, h2)" by (cases "randint_array ops 2 nr nt h1")
  have m: "is_matrix nr nt Fr" "is_matrix nr nt Fi" "is_matrix nr nt Br" "is_matrix nr nt Bi"
    using normal_array_matrix [OF n1] normal_array_matrix [OF n2]
      randint_array_matrix [OF b1] randint_array_matrix [OF b2]
    by blast+
  from is_matrix_add [OF m(1) is_matrix_scale [OF m(2)]] obtain Fc where
    Fc: "add Fr (scale Complex128 \<i> Fi) = Inr Fc" "is_matrix nr nt Fc" by blast
  from is_matrix_add [OF is_matrix_one_minus_twice [OF m(3)]
      is_matrix_scale [OF is_matrix_one_minus_twice [OF m(4)]]] obtain Bc where
    Bc: "add (one_minus_twice Br) (scale Complex128 \<i> (one_minus_twice Bi)) = Inr Bc"
      "is_matrix nr nt Bc" by blast
  show ?thesis
    using a m Fc Bc is_matrix_one_minus_twice [OF m(3)]
    by (auto simp: create_channel_def ab n1 n2 b1 b2 Let_def)
qed


lemma create_symbols_matrix:
  "\<exists>s w'. create_transmitted_symbols ops n amps q w = Inr (s, w') \<and> is_matrix n 1 s"
proof -
  obtain re g1 where c1: "choice_array ops amps n 1 (np_random w) = (re, g1)"
    by (cases "choice_array ops amps n 1 (np_random w)")
  obtain im g2 where c2: "choice_array ops amps n 1 g1 = (im, g2)"
    by (cases "choice_array ops amps n 1 g1")
  have m: "is_matrix n 1 re" "is_matrix n 1 im"
    using choice_array_matrix [OF c1] choice_array_matrix [OF c2] by blast+
  from is_matrix_add [OF m(1) is_matrix_scale [OF m(2)]] obtain s where
    "add re (scale Complex128 \<i> im) = Inr s" "is_matrix n 1 s" by blast
  with m show ?thesis
    by (auto simp: create_transmitted_symbols_def c1 c2 simp del: One_nat_def)
qed

lemma shape_at_matrix:
  "is_matrix r c a \<Longrightarrow> shape_at a 0 = Inr r" "is_matrix r c a \<Longrightarrow> shape_at a 1 = Inr c"
  "is_matrix r c a \<Longrightarrow> shape_at a (Suc 0) = Inr c"
  by (simp_all add: is_matrix_def shape_at_def)

lemma create_signal_noiseless:
  assumes F: "is_matrix nr nt F" and m: "modulation = ''BPSK'' \<or> modulation = ''QPSK''"
  shows "\<exists>y ts w'. create_signal ops F None noise PInf modulation cp (State g) w
             = Inr ((y, ts, noise, State g), w') \<and> is_matrix nr 1 y"
proof -
  from m obtain bits amps pw where cp: "constellation_properties modulation = Inr (bits, amps, pw)"
    by (auto simp: constellation_properties_def)
  from create_symbols_matrix [of ops nt amps "modulation \<noteq> ''BPSK''" w] obtain ts w' where
    ts: "create_transmitted_symbols ops nt amps (modulation \<noteq> ''BPSK'') w = Inr (ts, w')"
      "is_matrix nt 1 ts" by blast
  from is_matrix_matmul [OF F ts(2)] obtain y where y: "matmul F ts = Inr y" "is_matrix nr 1 y"
    by blast
  show ?thesis
    using y ts(1)
    by (simp add: create_signal_def shape_at_matrix [OF F] cp materialize_def)
qed

lemma quadratic_form_matrix:
  assumes "is_matrix n 1 y" "is_matrix n m F"
  shows "\<exists>off h J. quadratic_form y F = Inr (off, h, J)
           \<and> is_matrix 1 1 off \<and> is_matrix m 1 h \<and> is_matrix m m J"
proof -
  have "quadratic_form (mat (dtype y) n 1 (at2 y)) (mat (dtype F) n m (at2 F)) =
     Inr (mat (real_dtype (dtype y)) 1 1 (\<lambda>i j. \<Sum>k\<leftarrow>[0..<n]. cnj (at2 y k 0) * at2 y k 0),
          mat (promote (dtype F) (dtype y)) m 1
            (\<lambda>i j. - 2 * (\<Sum>k\<leftarrow>[0..<n]. cnj (at2 F k i) * at2 y k 0)),
          mat (dtype F) m m (\<lambda>i j. \<Sum>k\<leftarrow>[0..<n]. cnj (at2 F k i) * at2 F k j))"
    by (rule quadratic_form_mat)
  then show ?thesis
    unfolding is_matrix_as_mat [OF assms(1), symmetric] is_matrix_as_mat [OF assms(2), symmetric]
    using is_matrix_mat by blast
qed

lemma is_matrix_real_part: "is_matrix r c a \<Longrightarrow> is_matrix r c (real_part a)"
  by (simp add: is_matrix_def real_part_def)

lemma column0_matrix:
  "is_matrix n 1 h \<Longrightarrow> \<exists>h0. column0 h = Inr h0 \<and> length (elems h0) = n"
  by (simp add: is_matrix_def column0_def)

lemma variables_bqm_of_arrays:
  "variables (bqm_of_arrays h J vt off :: 'n bqm) = map Index [0..<length (elems h)]"
  by (simp add: variables_def bqm_of_arrays_def o_def)

lemma yF_to_hJ_BPSK:
  assumes "is_matrix n 1 y" "is_matrix n m F"
  shows "\<exists>h J off. yF_to_hJ y F ''BPSK'' = Inr (h, J, off) \<and> is_matrix m 1 h \<and> is_matrix m m J"
proof -
  from quadratic_form_matrix [OF assms] obtain off h J where
    q: "quadratic_form y F = Inr (off, h, J)" "is_matrix m 1 h" "is_matrix m m J" by blast
  then show ?thesis
    by (simp add: yF_to_hJ_def real_quadratic_form_def amplitude_modulated_quadratic_form_def
        is_matrix_real_part)
qed

lemma RandomState_valid:
  "valid_seed seed \<Longrightarrow> \<exists>g w'. RandomState ops seed w = Inr (g, w')"
  by (auto simp: valid_seed_def RandomState_def split: option.splits)

lemma spin_encoded_mimo_BPSK_variables:
  assumes "0 < nt" "0 < nr" "valid_seed seed" "valid_distribution fd"
  shows "\<exists>b w'. spin_encoded_mimo ops ''BPSK'' None None None noise (Some nt) (Some nr) PInf seed
             fd use_offset w = Inr (b :: 'n bqm, w')
           \<and> variables b = map Index [0..<nt]"
proof -
  from RandomState_valid [OF assms(3), of ops w] obtain g w1 where
    rs: "RandomState ops seed w = Inr (g, w1)" by blast
  from create_channel_matrix [OF assms(4), of ops nr nt g w1] obtain F cp g1 where
    ch: "create_channel ops nr nt fd (Some g) w1 = Inr ((F, cp, g1), w1)" "is_matrix nr nt F"
    by blast
  from create_signal_noiseless [OF ch(2), of "''BPSK''" ops noise "Some (real cp)" g1 w1]
  obtain y ts w2 where
    sg: "create_signal ops F None noise PInf ''BPSK'' (Some (real cp)) (State g1) w1
           = Inr ((y, ts, noise, State g1), w2)" "is_matrix nr 1 y"
    by blast
  from yF_to_hJ_BPSK [OF sg(2) ch(2)] obtain h J off where
    hj: "yF_to_hJ y F ''BPSK'' = Inr (h, J, off)" "is_matrix nt 1 h" "is_matrix nt nt J" by blast
  from column0_matrix [OF hj(2)] obtain h0 where
    h0: "column0 h = Inr h0" "length (elems h0) = nt" by blast
  show ?thesis
    using assms(1,2)
    by (simp add: spin_encoded_mimo_def infer_transmitters_def infer_receivers_def
        mimo_channel_def rs ch(1) sg(1) hj(1) h0 variables_bqm_of_arrays)
qed


lemma keys_add_coefficient:
  "map fst (add_coefficient k v xs)
     = (if k \<in> set (map fst xs) then map fst xs else map fst xs @ [k])"
proof (induction xs)
  case Nil
  then show ?case by simp
next
  case (Cons x xs)
  obtain k' v' where x: "x = (k', v')" by (cases x)
  show ?case
  proof (cases "k = k'")
    case True
    then show ?thesis by (simp add: x)
  next
    case False
    with Cons show ?thesis by (simp add: x)
  qed
qed

lemma keys_merge:
  "set (map fst (merge_coefficients a b)) = set (map fst a) \<union> set (map fst b)"
  "distinct (map fst a) \<Longrightarrow> distinct (map fst (merge_coefficients a b))"
proof -
  have "set (map fst (fold (\<lambda>(k, v). add_coefficient k v) b a)) = set (map fst a) \<union> set (map fst b)
      \<and> (distinct (map fst a) \<longrightarrow> distinct (map fst (fold (\<lambda>(k, v). add_coefficient k v) b a)))"
  proof (induction b arbitrary: a)
    case Nil
    then show ?case by simp
  next
    case (Cons x b)
    obtain k v where x: "x = (k, v)" by (cases x)
    have 1: "set (map fst (add_coefficient k v a)) = insert k (set (map fst a))"
      by (auto simp: keys_add_coefficient)
    have 2: "distinct (map fst a) \<Longrightarrow> distinct (map fst (add_coefficient k v a))"
      by (auto simp: keys_add_coefficient)
    from Cons [of "add_coefficient k v a"] 1 2 show ?case
      by (auto simp: x)
  qed
  then show "set (map fst (merge_coefficients a b)) = set (map fst a) \<union> set (map fst b)"
    and "distinct (map fst a) \<Longrightarrow> distinct (map fst (merge_coefficients a b))"
    by (simp_all add: merge_coefficients_def)
qed

lemma variables_bqm_add:
  "set (variables (bqm_add a b)) = set (variables a) \<union> set (variables b)"
  "distinct (variables a) \<Longrightarrow> distinct (variables (bqm_add a b))"
  using keys_merge [of "linear a" "linear b"] by (simp_all add: variables_def bqm_add_def)

lemma variables_relabel:
  "variables (relabel_variables c labels) = map (relabel labels) (variables c)"
  by (simp add: variables_def relabel_variables_def o_def split_def)

lemma relabel_all: "map (relabel labels) (map Index [0..<length labels]) = labels"
  by (intro nth_equalityI) (simp_all add: relabel_def)

lemma length_geometric_labels:
  "length (geometric_labels G t bs) = t * (1 + length (neighbors G bs))"
  by (simp add: geometric_labels_def length_concat o_def sum_list_triv)

lemma set_geometric_labels:
  "set (geometric_labels G t bs)
     = {Geometric v i | v i. (v = bs \<or> v \<in> set (neighbors G bs)) \<and> i < t}"
  by (auto simp: geometric_labels_def)

lemma comp_cells_BPSK:
  assumes "0 < t" "0 < nr" "valid_seed seed" "valid_distribution fd"
    and "set rest \<subseteq> set (nodes G)" and "\<And>v. v \<in> set rest \<Longrightarrow> v \<notin> set (neighbors G v)"
  shows "\<exists>b w'. comp_cells ops G ''BPSK'' None None noise t nr PInf seed fd uo rest acc w
             = Inr (b, w')
           \<and> set (variables b) = set (variables acc) \<union> (\<Union>bs\<in>set rest. set (geometric_labels G t bs))
           \<and> (distinct (variables acc) \<longrightarrow> distinct (variables b))"
  using assms(5,6)
proof (induction rest arbitrary: acc w)
  case Nil
  then show ?case by simp
next
  case (Cons bs rest)
  from Cons.prems have bs: "bs \<in> set (nodes G)" "bs \<notin> set (neighbors G bs)" by auto
  let ?n = "t * (1 + degree G bs)"
  have n: "?n = length (geometric_labels G t bs)"
    using bs(2) by (simp add: degree_def length_geometric_labels)
  have pos: "0 < ?n" using assms(1) by simp
  from spin_encoded_mimo_BPSK_variables [OF pos assms(2,3,4), of ops noise uo w]
  obtain cell :: "'a bqm" and w1 where
    cell: "spin_encoded_mimo ops ''BPSK'' None None None noise (Some ?n) (Some nr) PInf seed fd uo w
             = Inr (cell, w1)" "variables cell = map Index [0..<?n]"
    by blast
  let ?acc = "bqm_add acc (relabel_variables cell (geometric_labels G t bs))"
  have v: "variables (relabel_variables cell (geometric_labels G t bs)) = geometric_labels G t bs"
    unfolding variables_relabel cell(2) n by (rule relabel_all)
  from Cons.IH [of ?acc w1] Cons.prems obtain b w' where
    b: "comp_cells ops G ''BPSK'' None None noise t nr PInf seed fd uo rest ?acc w1 = Inr (b, w')"
       "set (variables b) = set (variables ?acc) \<union> (\<Union>bs\<in>set rest. set (geometric_labels G t bs))"
       "distinct (variables ?acc) \<longrightarrow> distinct (variables b)"
    by auto
  have "comp_cells ops G ''BPSK'' None None noise t nr PInf seed fd uo (bs # rest) acc w = Inr (b, w')"
    using bs(1) cell(1) b(1) by (simp add: cell_entry_def)
  moreover have "set (variables b)
      = set (variables acc) \<union> (\<Union>bs\<in>set (bs # rest). set (geometric_labels G t bs))"
    unfolding b(2) variables_bqm_add(1) v by auto
  moreover have "distinct (variables acc) \<longrightarrow> distinct (variables b)"
    using b(3) variables_bqm_add(2) [of acc] by blast
  ultimately show ?case by blast
qed


text \<open>
  Claim C2, as the code has it.  For a graph of basestations without loops, a transmitter
  count \<open>t > 0\<close> per node, at least one receiver, generated channels and signals, no
  noise (\<^verbatim>\<open>SNRb\<close> infinite) and modulation BPSK, \<^verbatim>\<open>spin_encoded_comp\<close> returns a model
  whose variables are the identifiers \<open>(node, i)\<close> for every node and \<open>i < t\<close>, each
  once: \<open>|nodes| * t\<close> variables.
\<close>

theorem comp_variables_BPSK:
  assumes "simple_graph G" "0 < t" "0 < nr" "valid_seed seed" "valid_distribution fd"
  shows "\<exists>b w'. spin_encoded_comp ops G ''BPSK'' None None None noise (Some t) (Some nr) PInf seed
             fd uo w = Inr (b, w')
           \<and> distinct (variables b)
           \<and> set (variables b) = {Geometric v i | v i. v \<in> set (nodes G) \<and> i < t}
           \<and> length (variables b) = length (nodes G) * t"
proof -
  from assms(1) have d: "distinct (nodes G)"
    and nb: "\<And>v. v \<in> set (nodes G) \<Longrightarrow> v \<notin> set (neighbors G v)"
    and sub: "\<And>v. v \<in> set (nodes G) \<Longrightarrow> set (neighbors G v) \<subseteq> set (nodes G)"
    by (auto simp: simple_graph_def list_all_iff)
  from comp_cells_BPSK [OF assms(2-5) subset_refl nb, of ops noise uo "empty_bqm ''SPIN''" w]
  obtain b w' where
    b: "comp_cells ops G ''BPSK'' None None noise t nr PInf seed fd uo (nodes G)
          (empty_bqm ''SPIN'') w = Inr (b, w')"
       "set (variables b) = set (variables (empty_bqm ''SPIN'' :: 'a bqm))
          \<union> (\<Union>bs\<in>set (nodes G). set (geometric_labels G t bs))"
       "distinct (variables (empty_bqm ''SPIN'' :: 'a bqm)) \<longrightarrow> distinct (variables b)"
    by blast
  have e: "variables (empty_bqm ''SPIN'' :: 'a bqm) = []"
    by (simp add: variables_def empty_bqm_def)
  have s: "set (variables b) = {Geometric v i | v i. v \<in> set (nodes G) \<and> i < t}"
    unfolding b(2) e using sub by (auto simp: set_geometric_labels)
  have dist: "distinct (variables b)" using b(3) e by simp
  have "{Geometric v i | v i. v \<in> set (nodes G) \<and> i < t}
      = (\<lambda>(v, i). Geometric v i) ` (set (nodes G) \<times> {0..<t})"
    by auto
  moreover have "inj_on (\<lambda>(v, i). Geometric v i) (set (nodes G) \<times> {0..<t})"
    by (auto simp: inj_on_def)
  ultimately have "card (set (variables b)) = card (set (nodes G) \<times> {0..<t})"
    unfolding s by (simp add: card_image)
  also have "\<dots> = length (nodes G) * t"
    using d by (simp add: distinct_card)
  finally have "length (variables b) = length (nodes G) * t"
    using dist by (simp add: distinct_card)
  with b(1) s dist show ?thesis
    by (auto simp: spin_encoded_comp_def spread_SNRb_def)
qed

theorem comp_variables_BPSK_witness:
  "\<exists>b w'. spin_encoded_comp counter_random two_nodes ''BPSK'' None None None None (Some 2) (Some 1)
       PInf None None False (counter_world 0) = Inr (b, w')
     \<and> distinct (variables b)
     \<and> set (variables b) = {Geometric v i | v i. v \<in> set (nodes two_nodes) \<and> i < 2}
     \<and> length (variables b) = length (nodes two_nodes) * 2"
proof -
  have "simple_graph two_nodes" by code_simp
  moreover have "valid_seed None" "valid_distribution None"
    by (simp_all add: valid_seed_def valid_distribution_def)
  ultimately show ?thesis
    by (intro comp_variables_BPSK) simp_all
qed

text \<open>
  The claim as stated covers QPSK.  A QPSK cell has two spins per transmitter, and the
  composer relabels only as many variables as there are transmitters: for one node and
  one transmitter the model has the variables \<open>(node, 0)\<close> and the plain index 1.
\<close>

theorem comp_variables_QPSK_counterexample:
  "map_sum id (variables \<circ> fst)
     (spin_encoded_comp counter_random one_node ''QPSK'' None None None None (Some 1) (Some 1)
        PInf None None False (counter_world 0))
     = Inr [Geometric () 0, Index 1]
   \<and> length [Geometric () 0, Index 1 :: unit label] \<noteq> length (nodes one_node) * 1"
  by code_simp

text \<open>
  Claim C3 at a finite \<^verbatim>\<open>SNRb\<close>: one basestation, BPSK, \<^verbatim>\<open>SNRb = 1\<close>.  The composer reads
  \<^verbatim>\<open>lattice.num_edges\<close> to spread the ratio, which a networkx graph does not have, and
  raises \<^verbatim>\<open>AttributeError\<close> before any cell is built.
\<close>

theorem comp_finite_SNRb_raises:
  "map_sum id fst
     (spin_encoded_comp counter_random one_node ''BPSK'' None None None None None None (Fin 1)
        None None False (counter_world 0))
     = Inl (AttributeError ''num_edges'')"
  by code_simp

text \<open>
  Claim C9 at 16QAM with one transmitter, one receiver and the seed 0: the transmitted
  symbol is drawn from the process-wide generator, so two calls with the same arguments
  and two states of that generator give two different models.
\<close>

theorem mimo_symbols_from_global_generator:
  "map_sum id (linear \<circ> fst)
     (spin_encoded_mimo counter_random ''16QAM'' None None None None (Some 1) (Some 1) PInf
        (Some 0) None False (counter_world 0) :: error + (unit bqm \<times> nat world))
     = Inr [(Index 0, - 4), (Index 1, - 12), (Index 2, - 8), (Index 3, - 24)]
   \<and> map_sum id (linear \<circ> fst)
     (spin_encoded_mimo counter_random ''16QAM'' None None None None (Some 1) (Some 1) PInf
        (Some 0) None False (counter_world 1) :: error + (unit bqm \<times> nat world))
     = Inr [(Index 0, - 12), (Index 1, - 4), (Index 2, - 24), (Index 3, - 8)]"
  by code_simp


lemma create_channel_complex:
  assumes "fd = None \<or> (\<exists>a b. fd = Some (a, b) \<and> (a = ''Normal'' \<or> a = ''Binary'') \<and> b \<noteq> ''Real'')"
  shows "\<exists>F g1. create_channel ops nr nt fd (Some g) w = Inr ((F, 2 * nt, g1), w)
           \<and> dtype F = Complex128 \<and> is_matrix nr nt F"
proof -
  obtain a b where ab: "(case fd of None \<Rightarrow> (''Normal'', ''Complex'') | Some d \<Rightarrow> d) = (a, b)"
    by (cases "case fd of None \<Rightarrow> (''Normal'', ''Complex'') | Some d \<Rightarrow> d") auto
  with assms have a: "a = ''Normal'' \<or> a = ''Binary''" and b: "b \<noteq> ''Real''"
    by auto
  obtain Fr g1 where n1: "normal_array ops nr nt g = (Fr, g1)" by (cases "normal_array ops nr nt g")
  obtain Fi g2 where n2: "normal_array ops nr nt g1 = (Fi, g2)" by (cases "normal_array ops nr nt g1")
  obtain Br h1 where b1: "randint_array ops 2 nr nt g = (Br, h1)" by (cases "randint_array ops 2 nr nt g")
  obtain Bi h2 where b2: "randint_array ops 2 nr nt h1 = (Bi, h2)" by (cases "randint_array ops 2 nr nt h1")
  have m: "is_matrix nr nt Fr" "is_matrix nr nt Fi" "is_matrix nr nt Br" "is_matrix nr nt Bi"
    using normal_array_matrix [OF n1] normal_array_matrix [OF n2]
      randint_array_matrix [OF b1] randint_array_matrix [OF b2]
    by blast+
  have c: "is_matrix nr nt x \<Longrightarrow> is_matrix nr nt z \<Longrightarrow>
      \<exists>s. add x (scale Complex128 \<i> z) = Inr s \<and> dtype s = Complex128 \<and> is_matrix nr nt s" for x z
    by (simp add: add_def scale_def is_matrix_def)
  from c [OF m(1,2)] obtain Fc where
    Fc: "add Fr (scale Complex128 \<i> Fi) = Inr Fc" "dtype Fc = Complex128" "is_matrix nr nt Fc"
    by blast
  from c [OF is_matrix_one_minus_twice [OF m(3)] is_matrix_one_minus_twice [OF m(4)]] obtain Bc where
    Bc: "add (one_minus_twice Br) (scale Complex128 \<i> (one_minus_twice Bi)) = Inr Bc"
      "dtype Bc = Complex128" "is_matrix nr nt Bc" by blast
  show ?thesis
    using a b Fc Bc
    by (auto simp: create_channel_def ab n1 n2 b1 b2 Let_def)
qed

lemma create_signal_noisy:
  assumes F: "is_matrix nr nt F" and cx: "dtype F = Complex128"
    and cp: "constellation_properties m = Inr (bits, amps, P)"
    and snr: "0 < snr"
    and mt: "materialize ops rs w = Inr (State g, w0)"
    and sym: "tsa = Some v \<and> is_matrix nt 1 v \<and> wv = w0
            \<or> tsa = None \<and> create_transmitted_symbols ops nt amps (m \<noteq> ''BPSK'') w0 = Inr (v, wv)"
    and n1: "normal_array ops nr 1 g = (Zr, g1)" and n2: "normal_array ops nr 1 g1 = (Zi, g2)"
  shows "\<exists>Z Fv y. add Zr (scale Complex128 \<i> Zi) = Inr Z \<and> matmul F v = Inr Fv
      \<and> add (scale Float64 (complex_of_real (sqrt (pw * P / real bits / snr / 2))) Z) Fv = Inr y
      \<and> create_signal ops F tsa None (Fin snr) m (Some pw) rs w
          = Inr ((y, v, Some (scale Float64 (complex_of_real (sqrt (pw * P / real bits / snr / 2))) Z),
                  State g2), wv)"
proof -
  define s where "s = complex_of_real (sqrt (pw * P / real bits / snr / 2))"
  have sg: "complex_of_real (signal_sigma pw P bits snr) = s"
    unfolding s_def signal_sigma_def Let_def ..
  have v: "is_matrix nt 1 v"
    using sym create_symbols_matrix [of ops nt amps "m \<noteq> ''BPSK''" w0] by auto
  have mt': "materialize ops (State g) u = Inr (State g, u)" for u
    by (simp add: materialize_def)
  from is_matrix_add [OF normal_array_matrix [OF n1]
      is_matrix_scale [OF normal_array_matrix [OF n2], of Complex128 \<i>]]
  obtain Z where Z: "add Zr (scale Complex128 \<i> Zi) = Inr Z" "is_matrix nr 1 Z" by blast
  from is_matrix_matmul [OF F v] obtain Fv where Fv: "matmul F v = Inr Fv" "is_matrix nr 1 Fv"
    by blast
  from is_matrix_add [OF is_matrix_scale [OF Z(2)] Fv(2)] obtain y where
    y: "add (scale Float64 s Z) Fv = Inr y"
    by blast
  have "create_signal ops F tsa None (Fin snr) m (Some pw) rs w
          = Inr ((y, v, Some (scale Float64 s Z), State g2), wv)"
    using sym
  proof (elim disjE conjE)
    assume "tsa = Some v" "wv = w0"
    then show ?thesis
      using Z(1) Fv(1) y snr cx
      by (simp add: create_signal_def shape_at_matrix [OF F] cp mt create_noise_def
          state_normal_def n1 n2 sg del: One_nat_def)
  next
    assume "tsa = None"
      "create_transmitted_symbols ops nt amps (m \<noteq> ''BPSK'') w0 = Inr (v, wv)"
    then show ?thesis
      using Z(1) Fv(1) y snr cx
      by (simp add: create_signal_def shape_at_matrix [OF F] cp mt mt' create_noise_def
          state_normal_def n1 n2 sg del: One_nat_def)
  qed
  with Z(1) Fv(1) y show ?thesis unfolding s_def by blast
qed

lemma mimo_given_channel:
  assumes F: "is_matrix nr nt F" and pos: "0 < nr" "0 < nt"
    and nto: "nto = None \<or> nto = Some nt" and nro: "nro = None \<or> nro = Some nr"
    and cs: "create_signal ops F tsa cn snrb m (Some (real nt)) (seed_arg seed) w
               = Inr ((y, ts, n, rs), w')"
  shows "spin_encoded_mimo ops m None (Some F) tsa cn nto nro snrb seed fd uo w
       = mimo_model m y F uo w'"
proof -
  have it: "infer_transmitters nto (Some F) tsa = Inr nt"
    using nto by (auto simp: infer_transmitters_def shape_at_matrix [OF F])
  have ir: "infer_receivers nro (Some F) None cn = Inr nr"
    using nro by (auto simp: infer_receivers_def shape_at_matrix [OF F])
  show ?thesis
    using pos
    by (simp add: spin_encoded_mimo_def it ir mimo_channel_def cs mimo_model_def)
qed

lemma mimo_generated_channel:
  assumes pos: "0 < nr" "0 < nt"
    and rs: "RandomState ops seed w = Inr (g, w1)"
    and ch: "create_channel ops nr nt fd (Some g) w1 = Inr ((F, cp, g'), w2)"
    and cs: "create_signal ops F tsa cn snrb m (Some (real cp)) (State g') w2
               = Inr ((y, ts, n, rs'), w')"
  shows "spin_encoded_mimo ops m None None tsa cn (Some nt) (Some nr) snrb seed fd uo w
       = mimo_model m y F uo w'"
  using pos
  by (simp add: spin_encoded_mimo_def infer_transmitters_def infer_receivers_def
      mimo_channel_def rs ch cs mimo_model_def)

text \<open>
  With a given channel the seed is passed on as it is.  An integer seed is then never
  turned into a generator, and drawing the noise fails on it.
\<close>

lemma given_channel_integer_seed:
  assumes F: "is_matrix nr nt F" and pos: "0 < nr" "0 < nt"
    and v: "is_matrix nt 1 v"
    and cp: "constellation_properties m = Inr (bits, amps, P)"
    and snr: "0 < snr"
  shows "spin_encoded_mimo ops m None (Some F) (Some v) None None None (Fin snr) (Some s) fd uo w
       = (Inl (AttributeError ''normal'') :: error + ('n bqm \<times> 'g world))"
  using pos snr
  by (simp add: spin_encoded_mimo_def infer_transmitters_def infer_receivers_def
      shape_at_matrix [OF F] mimo_channel_def seed_arg_def create_signal_def cp materialize_def
      create_noise_def state_normal_def Let_def)

text \<open>The facts that evaluate the draws of the counter generator, and the model of the
  signal \<open>s * (1 + \<i>) + 4 \<i>\<close> over the channel \<open>[[1 + \<i>, 1 + \<i>]]\<close>.\<close>

lemmas ev_simps = create_transmitted_symbols_def create_channel_def choice_array_def
  normal_array_def counter_random_def counter_world_def ones_def add_def scale_def matrix_def
  eval_nat_numeral complex_eq_iff vec_def

lemma mimo_model_example:
  "map_sum id (linear \<circ> fst)
      (mimo_model ''QPSK'' (matrix Complex128 [[Complex s (s + 4)]])
         (matrix Complex128 [[Complex 1 1, Complex 1 1]]) False
         ((counter_world 0)\<lparr>np_random := 4\<rparr>) :: error + (unit bqm \<times> nat world))
     = Inr [(Index 0, - (4 * s + 8)), (Index 1, - (4 * s + 8)), (Index 2, - 8), (Index 3, - 8)]"
  by code_simp (simp add: algebra_simps)



end
